theory Spec2Isabelle
  imports
    Main
    "HOL-Library.Sublist"
    "HOL-Library.Char_ord"
    "HOL-Library.List_Lexorder"
    "HOL-Library.Multiset"
    "HOL-Library.Word"
begin

section \<open>Python values shared by both modules\<close>

text \<open>
  The exceptions the two source files can raise, as values. \<open>AssertionError\<close> is what a
  failing \<^verbatim>\<open>assert\<close> raises, \<open>IndexError\<close> a list or shape index out of range,
  \<open>KeyError\<close> a missing dictionary key, \<open>TypeError\<close> an operator applied to a value of
  the wrong type, \<open>AttributeError\<close> an attribute read before any method has set it,
  \<open>UnboundLocalError\<close> a local variable read before its first binding,
  \<open>OverflowError\<close> an integer that does not fit the fixed-width type it is combined
  with. \<open>ValueError\<close> and \<open>NotFoundError\<close> come from the checkpoint library,
  \<open>LoadError\<close> stands for whatever an injected file loader raises.
\<close>

datatype error =
    AssertionError
  | IndexError
  | KeyError
  | TypeError
  | ZeroDivisionError
  | AttributeError
  | UnboundLocalError
  | OverflowError
  | ValueError
  | NotFoundError
  | LoadError

text \<open>
  A loaded array: its shape and its elements in row-major order. Only \<^verbatim>\<open>shape[0]\<close> is
  ever inspected by the code.
\<close>

datatype 'a ndarray = NDArray (shape: "nat list") (elems: "'a list")

type_synonym 'a loader = "string \<Rightarrow> error + 'a ndarray"

text \<open>\<^verbatim>\<open>xs[i]\<close> for a non-negative index.\<close>

definition getitem :: "'a list \<Rightarrow> nat \<Rightarrow> error + 'a" where
  "getitem xs i = (if i < length xs then Inr (xs ! i) else Inl IndexError)"

text \<open>\<^verbatim>\<open>[xs[idx] for idx in idxs]\<close>\<close>

fun gather :: "'a list \<Rightarrow> nat list \<Rightarrow> error + 'a list" where
  "gather xs [] = Inr []"
| "gather xs (idx # idxs) =
     (case getitem xs idx of
        Inl e \<Rightarrow> Inl e
      | Inr x \<Rightarrow> (case gather xs idxs of Inl e \<Rightarrow> Inl e | Inr r \<Rightarrow> Inr (x # r)))"

section \<open>String functions of the Python library used by the datasets\<close>

text \<open>\<^verbatim>\<open>sub in s\<close>\<close>

fun contains :: "string \<Rightarrow> string \<Rightarrow> bool" where
  "contains sub [] = (sub = [])"
| "contains sub (c # cs) = (prefix sub (c # cs) \<or> contains sub cs)"

text \<open>
  \<^verbatim>\<open>s.replace(old, new)\<close>: every non-overlapping occurrence of \<open>old\<close>, scanning from the
  left, is replaced. (With an empty \<open>old\<close> Python puts \<open>new\<close> around every character.)
\<close>

function replace :: "string \<Rightarrow> string \<Rightarrow> string \<Rightarrow> string" where
  "replace old new [] = (if old = [] then new else [])"
| "replace old new (c # cs) =
     (if old = [] then new @ c # replace old new cs
      else if prefix old (c # cs) then new @ replace old new (drop (length old) (c # cs))
      else c # replace old new cs)"
  by pat_completeness auto
termination
  by (relation "measure (\<lambda>(old, new, s). length s)") auto

text \<open>\<^verbatim>\<open>os.path.basename(p)\<close> (POSIX): what follows the last slash.\<close>

definition basename :: "string \<Rightarrow> string" where
  "basename p = rev (takeWhile (\<lambda>c. c \<noteq> CHR ''/'') (rev p))"

text \<open>\<^verbatim>\<open>p.rfind(c)\<close>: the index of the last occurrence of the character, or -1.\<close>

fun rfind_from :: "char \<Rightarrow> string \<Rightarrow> nat \<Rightarrow> int \<Rightarrow> int" where
  "rfind_from c [] i found = found"
| "rfind_from c (x # xs) i found = rfind_from c xs (Suc i) (if x = c then int i else found)"

definition rfind :: "char \<Rightarrow> string \<Rightarrow> int" where
  "rfind c p = rfind_from c p 0 (- 1)"

text \<open>
  \<^verbatim>\<open>os.path.splitext(p)\<close> (POSIX): the split is at the last dot, provided that dot comes
  after the last slash and some character between the slash and the dot is not a dot
  (leading dots of the file name do not start an extension).
\<close>

definition splitext :: "string \<Rightarrow> string \<times> string" where
  "splitext p =
     (let sepIndex = rfind (CHR ''/'') p;
          dotIndex = rfind (CHR ''.'') p
      in if dotIndex > sepIndex \<and>
            list_ex (\<lambda>k. p ! k \<noteq> CHR ''.'') [nat (sepIndex + 1)..<nat dotIndex]
         then (take (nat dotIndex) p, drop (nat dotIndex) p)
         else (p, []))"

section \<open>The dataset adapters (audio\_mel\_dataset.py)\<close>

subsection \<open>Length thresholds\<close>

text \<open>\<^verbatim>\<open>load_fn(f).shape[0]\<close>\<close>

definition load_length :: "'a loader \<Rightarrow> string \<Rightarrow> error + nat" where
  "load_length load_fn f =
     (case load_fn f of
        Inl e \<Rightarrow> Inl e
      | Inr arr \<Rightarrow> (case shape arr of [] \<Rightarrow> Inl IndexError | n # _ \<Rightarrow> Inr n))"

text \<open>\<^verbatim>\<open>[load_fn(f).shape[0] for f in files]\<close>\<close>

fun load_lengths :: "'a loader \<Rightarrow> string list \<Rightarrow> error + nat list" where
  "load_lengths load_fn [] = Inr []"
| "load_lengths load_fn (f # fs) =
     (case load_length load_fn f of
        Inl e \<Rightarrow> Inl e
      | Inr n \<Rightarrow> (case load_lengths load_fn fs of Inl e \<Rightarrow> Inl e | Inr ns \<Rightarrow> Inr (n # ns)))"

text \<open>\<^verbatim>\<open>[idx for idx in rng if lengths[idx] > threshold]\<close>\<close>

fun long_idxs :: "nat list \<Rightarrow> int \<Rightarrow> nat list \<Rightarrow> error + nat list" where
  "long_idxs lengths threshold [] = Inr []"
| "long_idxs lengths threshold (idx # rng) =
     (case getitem lengths idx of
        Inl e \<Rightarrow> Inl e
      | Inr n \<Rightarrow>
          (case long_idxs lengths threshold rng of
             Inl e \<Rightarrow> Inl e
           | Inr r \<Rightarrow> Inr (if int n > threshold then idx # r else r)))"

text \<open>
  The two lines every threshold block starts with: the lengths of all files of the list
  the threshold is about, then the indices whose length is greater than the threshold.
\<close>

definition threshold_idxs :: "'a loader \<Rightarrow> int \<Rightarrow> string list \<Rightarrow> error + nat list" where
  "threshold_idxs load_fn threshold files =
     (case load_lengths load_fn files of
        Inl e \<Rightarrow> Inl e
      | Inr lengths \<Rightarrow> long_idxs lengths threshold [0..<length files])"

text \<open>
  Lines 52-59 of \<^verbatim>\<open>AudioMelDataset.__init__\<close>: the block guarded by
  \<^verbatim>\<open>audio_length_threshold is not None\<close>. The pair is (audio\_files, mel\_files).
  The warning it logs changes nothing and is left out.
\<close>

definition filter_by_audio ::
  "'a loader \<Rightarrow> int option \<Rightarrow> string list \<times> string list \<Rightarrow> error + (string list \<times> string list)"
where
  "filter_by_audio audio_load_fn audio_length_threshold fs =
     (case audio_length_threshold of
        None \<Rightarrow> Inr fs
      | Some threshold \<Rightarrow>
          (case threshold_idxs audio_load_fn threshold (fst fs) of
             Inl e \<Rightarrow> Inl e
           | Inr idxs \<Rightarrow>
               (case gather (fst fs) idxs of
                  Inl e \<Rightarrow> Inl e
                | Inr audio_files \<Rightarrow>
                    (case gather (snd fs) idxs of
                       Inl e \<Rightarrow> Inl e
                     | Inr mel_files \<Rightarrow> Inr (audio_files, mel_files)))))"

text \<open>Lines 60-67: the block guarded by \<^verbatim>\<open>mel_length_threshold is not None\<close>.\<close>

definition filter_by_mel ::
  "'a loader \<Rightarrow> int option \<Rightarrow> string list \<times> string list \<Rightarrow> error + (string list \<times> string list)"
where
  "filter_by_mel mel_load_fn mel_length_threshold fs =
     (case mel_length_threshold of
        None \<Rightarrow> Inr fs
      | Some threshold \<Rightarrow>
          (case threshold_idxs mel_load_fn threshold (snd fs) of
             Inl e \<Rightarrow> Inl e
           | Inr idxs \<Rightarrow>
               (case gather (fst fs) idxs of
                  Inl e \<Rightarrow> Inl e
                | Inr audio_files \<Rightarrow>
                    (case gather (snd fs) idxs of
                       Inl e \<Rightarrow> Inl e
                     | Inr mel_files \<Rightarrow> Inr (audio_files, mel_files)))))"

text \<open>Lines 52-67: the two blocks one after the other.\<close>

definition filter_by_thresholds ::
  "'a loader \<Rightarrow> 'a loader \<Rightarrow> int option \<Rightarrow> int option \<Rightarrow> string list \<times> string list \<Rightarrow>
   error + (string list \<times> string list)"
where
  "filter_by_thresholds audio_load_fn mel_load_fn audio_length_threshold mel_length_threshold fs =
     (case filter_by_audio audio_load_fn audio_length_threshold fs of
        Inl e \<Rightarrow> Inl e
      | Inr fs1 \<Rightarrow> filter_by_mel mel_load_fn mel_length_threshold fs1)"

text \<open>
  The single-list variant of \<^verbatim>\<open>AudioDataset.__init__\<close> (lines 139-145) and
  \<^verbatim>\<open>MelDataset.__init__\<close> (lines 208-214).
\<close>

definition filter_by_length :: "'a loader \<Rightarrow> int option \<Rightarrow> string list \<Rightarrow> error + string list" where
  "filter_by_length load_fn length_threshold files =
     (case length_threshold of
        None \<Rightarrow> Inr files
      | Some threshold \<Rightarrow>
          (case threshold_idxs load_fn threshold files of
             Inl e \<Rightarrow> Inl e
           | Inr idxs \<Rightarrow> gather files idxs))"

subsection \<open>Utterance ids\<close>

text \<open>
  Lines 74-77, 150-153 and 219-222: the rule is chosen by the query string, and the token
  that is removed is \<^verbatim>\<open>-wave.npy\<close> in the two audio adapters and \<^verbatim>\<open>-feats.npy\<close> in
  \<^verbatim>\<open>MelDataset\<close>.
\<close>

definition derive_utt_ids :: "string \<Rightarrow> string \<Rightarrow> string list \<Rightarrow> string list" where
  "derive_utt_ids token query files =
     (if contains ''.npy'' query
      then map (\<lambda>f. replace token [] (basename f)) files
      else map (\<lambda>f. fst (splitext (basename f))) files)"

subsection \<open>AudioMelDataset\<close>

record 'a AudioMelDataset =
  am_utt_ids :: "string list"
  am_audio_files :: "string list"
  am_mel_files :: "string list"
  am_audio_load_fn :: "'a loader"
  am_mel_load_fn :: "'a loader"
  am_return_utt_id :: bool

text \<open>
  \<^verbatim>\<open>AudioMelDataset.__init__\<close>. The helper \<^verbatim>\<open>find_files\<close> of
  \<^verbatim>\<open>tensorflow_tts.utils\<close> lists a directory and is a parameter here: any function
  from a root directory and a query to the matching paths, in whatever order the file
  system gives them.
\<close>

definition AudioMelDataset_init ::
  "(string \<Rightarrow> string \<Rightarrow> string list) \<Rightarrow> string \<Rightarrow> string \<Rightarrow> string \<Rightarrow>
   'a loader \<Rightarrow> 'a loader \<Rightarrow> int option \<Rightarrow> int option \<Rightarrow> bool \<Rightarrow> error + 'a AudioMelDataset"
where
  "AudioMelDataset_init find_files root_dir audio_query mel_query audio_load_fn mel_load_fn
       audio_length_threshold mel_length_threshold return_utt_id =
     (let audio_files = sort (find_files root_dir audio_query);
          mel_files = sort (find_files root_dir mel_query)
      in case filter_by_thresholds audio_load_fn mel_load_fn audio_length_threshold
                mel_length_threshold (audio_files, mel_files) of
           Inl e \<Rightarrow> Inl e
         | Inr fs \<Rightarrow>
             if length (fst fs) = 0 then Inl AssertionError
             else if length (fst fs) \<noteq> length (snd fs) then Inl AssertionError
             else Inr \<lparr> am_utt_ids = derive_utt_ids ''-wave.npy'' audio_query (fst fs),
                        am_audio_files = fst fs,
                        am_mel_files = snd fs,
                        am_audio_load_fn = audio_load_fn,
                        am_mel_load_fn = mel_load_fn,
                        am_return_utt_id = return_utt_id \<rparr>)"

text \<open>The tuples the generator yields: with or without the utterance id.\<close>

datatype 'a am_items =
    IdAudioMel string "'a ndarray" "'a ndarray"
  | AudioMel "'a ndarray" "'a ndarray"

text \<open>
  \<^verbatim>\<open>AudioMelDataset.generator\<close>, from enumeration index \<open>i\<close> on. A Python generator is
  lazy: what its consumer sees is the sequence of tuples yielded so far and then either
  the end of the sequence (\<open>None\<close>) or the exception that stopped it.
\<close>

fun AudioMelDataset_generator_from ::
  "'a AudioMelDataset \<Rightarrow> nat \<Rightarrow> string list \<Rightarrow> 'a am_items list \<times> error option"
where
  "AudioMelDataset_generator_from self i [] = ([], None)"
| "AudioMelDataset_generator_from self i (utt_id # rest) =
     (case getitem (am_audio_files self) i of
        Inl e \<Rightarrow> ([], Some e)
      | Inr audio_file \<Rightarrow>
     (case getitem (am_mel_files self) i of
        Inl e \<Rightarrow> ([], Some e)
      | Inr mel_file \<Rightarrow>
     (case am_audio_load_fn self audio_file of
        Inl e \<Rightarrow> ([], Some e)
      | Inr audio \<Rightarrow>
     (case am_mel_load_fn self mel_file of
        Inl e \<Rightarrow> ([], Some e)
      | Inr mel \<Rightarrow>
          (let items = (if am_return_utt_id self then IdAudioMel utt_id audio mel
                        else AudioMel audio mel);
               later = AudioMelDataset_generator_from self (Suc i) rest
           in (items # fst later, snd later))))))"

definition AudioMelDataset_generator ::
  "'a AudioMelDataset \<Rightarrow> string list \<Rightarrow> 'a am_items list \<times> error option" where
  "AudioMelDataset_generator self utt_ids = AudioMelDataset_generator_from self 0 utt_ids"

definition AudioMelDataset_get_len_dataset :: "'a AudioMelDataset \<Rightarrow> nat" where
  "AudioMelDataset_get_len_dataset self = length (am_utt_ids self)"

subsection \<open>AudioDataset and MelDataset\<close>

record 'a AudioDataset =
  a_utt_ids :: "string list"
  a_audio_files :: "string list"
  a_audio_load_fn :: "'a loader"
  a_return_utt_id :: bool

definition AudioDataset_init ::
  "(string \<Rightarrow> string \<Rightarrow> string list) \<Rightarrow> string \<Rightarrow> string \<Rightarrow> 'a loader \<Rightarrow> int option \<Rightarrow> bool \<Rightarrow>
   error + 'a AudioDataset"
where
  "AudioDataset_init find_files root_dir audio_query audio_load_fn audio_length_threshold
       return_utt_id =
     (let audio_files = sort (find_files root_dir audio_query)
      in case filter_by_length audio_load_fn audio_length_threshold audio_files of
           Inl e \<Rightarrow> Inl e
         | Inr audio_files \<Rightarrow>
             if length audio_files = 0 then Inl AssertionError
             else Inr \<lparr> a_utt_ids = derive_utt_ids ''-wave.npy'' audio_query audio_files,
                        a_audio_files = audio_files,
                        a_audio_load_fn = audio_load_fn,
                        a_return_utt_id = return_utt_id \<rparr>)"

text \<open>What the single-array generators yield: \<^verbatim>\<open>(utt_id, array)\<close> or the array alone.\<close>

datatype 'a single_items =
    IdArray string "'a ndarray"
  | Array "'a ndarray"

text \<open>The loop shared by \<^verbatim>\<open>AudioDataset.generator\<close> and \<^verbatim>\<open>MelDataset.generator\<close>.\<close>

fun single_generator_from ::
  "string list \<Rightarrow> 'a loader \<Rightarrow> bool \<Rightarrow> nat \<Rightarrow> string list \<Rightarrow> 'a single_items list \<times> error option"
where
  "single_generator_from files load_fn return_utt_id i [] = ([], None)"
| "single_generator_from files load_fn return_utt_id i (utt_id # rest) =
     (case getitem files i of
        Inl e \<Rightarrow> ([], Some e)
      | Inr file \<Rightarrow>
     (case load_fn file of
        Inl e \<Rightarrow> ([], Some e)
      | Inr arr \<Rightarrow>
          (let items = (if return_utt_id then IdArray utt_id arr else Array arr);
               later = single_generator_from files load_fn return_utt_id (Suc i) rest
           in (items # fst later, snd later))))"

definition AudioDataset_generator ::
  "'a AudioDataset \<Rightarrow> string list \<Rightarrow> 'a single_items list \<times> error option" where
  "AudioDataset_generator self utt_ids =
     single_generator_from (a_audio_files self) (a_audio_load_fn self) (a_return_utt_id self)
       0 utt_ids"

record 'a MelDataset =
  m_utt_ids :: "string list"
  m_mel_files :: "string list"
  m_mel_load_fn :: "'a loader"
  m_return_utt_id :: bool

definition MelDataset_init ::
  "(string \<Rightarrow> string \<Rightarrow> string list) \<Rightarrow> string \<Rightarrow> string \<Rightarrow> 'a loader \<Rightarrow> int option \<Rightarrow> bool \<Rightarrow>
   error + 'a MelDataset"
where
  "MelDataset_init find_files root_dir mel_query mel_load_fn mel_length_threshold
       return_utt_id =
     (let mel_files = sort (find_files root_dir mel_query)
      in case filter_by_length mel_load_fn mel_length_threshold mel_files of
           Inl e \<Rightarrow> Inl e
         | Inr mel_files \<Rightarrow>
             if length mel_files = 0 then Inl AssertionError
             else Inr \<lparr> m_utt_ids = derive_utt_ids ''-feats.npy'' mel_query mel_files,
                        m_mel_files = mel_files,
                        m_mel_load_fn = mel_load_fn,
                        m_return_utt_id = return_utt_id \<rparr>)"

definition MelDataset_generator ::
  "'a MelDataset \<Rightarrow> string list \<Rightarrow> 'a single_items list \<times> error option" where
  "MelDataset_generator self utt_ids =
     single_generator_from (m_mel_files self) (m_mel_load_fn self) (m_return_utt_id self)
       0 utt_ids"

section \<open>The trainer (base\_trainer.py)\<close>

subsection \<open>Configuration, objects and checkpoints\<close>

text \<open>
  The values of the configuration dictionary that the trainer reads: integers
  (\<^verbatim>\<open>rank\<close>, the interval steps) and strings (\<^verbatim>\<open>outdir\<close>).
\<close>

datatype cfg_value = CInt int | CStr string

text \<open>
  The values the two counters \<^verbatim>\<open>steps\<close> and \<^verbatim>\<open>epochs\<close> take. The constructor is
  given Python integers, which are unbounded. \<^verbatim>\<open>load_checkpoint\<close> assigns what
  \<^verbatim>\<open>.numpy()\<close> returns for a scalar 32-bit variable: a NumPy scalar of type
  \<^verbatim>\<open>int32\<close>.
\<close>

datatype number = PyInt int | NpInt32 "32 word"

text \<open>The integer a number stands for: what \<^verbatim>\<open>==\<close> compares and \<^verbatim>\<open>%d\<close> prints.\<close>

fun int_of :: "number \<Rightarrow> int" where
  "int_of (PyInt v) = v"
| "int_of (NpInt32 w) = sint w"

text \<open>
  \<^verbatim>\<open>x += 1\<close> and \<^verbatim>\<open>x % v\<close> for a configuration value \<open>v\<close>. Python's remainder has
  the sign of the divisor, as \<open>mod\<close> on \<open>int\<close> has, and so has NumPy's. When \<open>x\<close> is an
  \<^verbatim>\<open>int32\<close> scalar, the other operand, a Python integer, takes the scalar's type (the
  promotion rule of NumPy 2) and the result is an \<^verbatim>\<open>int32\<close> scalar again: a sum
  that overflows wraps around and a remainder by zero is 0, each with a warning and no
  exception, and a Python integer outside the 32-bit range is refused with
  \<^verbatim>\<open>OverflowError\<close>.
\<close>

fun add_one :: "number \<Rightarrow> number" where
  "add_one (PyInt v) = PyInt (v + 1)"
| "add_one (NpInt32 w) = NpInt32 (w + 1)"

fun py_mod :: "number \<Rightarrow> cfg_value \<Rightarrow> error + number" where
  "py_mod a (CStr s) = Inl TypeError"
| "py_mod (PyInt a) (CInt b) =
     (if b = 0 then Inl ZeroDivisionError else Inr (PyInt (a mod b)))"
| "py_mod (NpInt32 w) (CInt b) =
     (if b < - (2 ^ 31) \<or> 2 ^ 31 \<le> b then Inl OverflowError
      else if b = 0 then Inr (NpInt32 0)
      else Inr (NpInt32 (word_of_int (sint w mod b))))"

text \<open>
  Models and optimizers are objects: the trainer and the checkpoint hold references to
  them, and their variables live in a heap.
\<close>

type_synonym ref = nat

text \<open>
  The object \<^verbatim>\<open>tf.train.Checkpoint(steps=tf.Variable(1), epochs=tf.Variable(1), ...)\<close>.
  A variable created from a Python integer is a 32-bit signed one; the four other fields
  are the very objects the trainer holds.
\<close>

record Checkpoint =
  ck_steps :: "32 word"
  ck_epochs :: "32 word"
  ck_generator :: ref
  ck_discriminator :: ref
  ck_gen_optimizer :: ref
  ck_dis_optimizer :: ref

text \<open>
  \<^verbatim>\<open>variable.assign(value)\<close> on such a variable. The tensor conversion reads a Python
  integer as a 64-bit one and casts it to the variable's 32 bits, keeping the low 32 bits
  without any exception; only an integer outside the 64-bit range is refused. An
  \<^verbatim>\<open>int32\<close> scalar is stored as it is.
\<close>

fun Variable_assign :: "number \<Rightarrow> error + 32 word" where
  "Variable_assign (PyInt v) =
     (if - (2 ^ 63) \<le> v \<and> v < 2 ^ 63 then Inr (word_of_int v) else Inl ValueError)"
| "Variable_assign (NpInt32 w) = Inr w"

text \<open>What one saved checkpoint holds: the two counters and the variables of the four objects.\<close>

record 'w Snapshot =
  snap_steps :: "32 word"
  snap_epochs :: "32 word"
  snap_generator :: 'w
  snap_discriminator :: 'w
  snap_gen_optimizer :: 'w
  snap_dis_optimizer :: 'w

text \<open>
  A checkpoint path \<^verbatim>\<open><directory>/ckpt-<number>\<close>, kept as the pair of its directory and
  its number.
\<close>

type_synonym ckpt_path = "string \<times> int"

text \<open>
  \<^verbatim>\<open>tf.train.CheckpointManager(ckpt, directory, max_to_keep)\<close>: the directory, the cap
  (\<open>None\<close> keeps everything) and the paths it retains, oldest first. The manager keeps
  this list also in the state file \<^verbatim>\<open><directory>/checkpoint\<close>, from where a manager
  created later for the same directory recovers it.
\<close>

record CheckpointManager =
  cm_directory :: string
  cm_max_to_keep :: "nat option"
  cm_kept :: "ckpt_path list"

text \<open>
  \<^verbatim>\<open>manager.save(checkpoint_number=n)\<close>, a function of the checkpoint library: it writes
  the current values of everything the checkpoint tracks under the path numbered \<open>n\<close>,
  then deletes the oldest retained checkpoints beyond the cap. The result is the manager
  the checkpoint files and the state files after the call: the list the manager then
  retains is what it records in the state file of its directory.
\<close>

definition CheckpointManager_save ::
  "CheckpointManager \<Rightarrow> Checkpoint \<Rightarrow> int \<Rightarrow> (ref \<Rightarrow> 'w) \<Rightarrow> (ckpt_path \<rightharpoonup> 'w Snapshot) \<Rightarrow>
   (string \<rightharpoonup> ckpt_path list) \<Rightarrow>
   CheckpointManager \<times> (ckpt_path \<rightharpoonup> 'w Snapshot) \<times> (string \<rightharpoonup> ckpt_path list)"
where
  "CheckpointManager_save manager c n heap disk state =
     (let path = (cm_directory manager, n);
          snapshot = \<lparr> snap_steps = ck_steps c, snap_epochs = ck_epochs c,
                       snap_generator = heap (ck_generator c),
                       snap_discriminator = heap (ck_discriminator c),
                       snap_gen_optimizer = heap (ck_gen_optimizer c),
                       snap_dis_optimizer = heap (ck_dis_optimizer c) \<rparr>;
          kept = filter (\<lambda>p. p \<noteq> path) (cm_kept manager) @ [path];
          evicted = (case cm_max_to_keep manager of
                       None \<Rightarrow> []
                     | Some k \<Rightarrow> if k = 0 then [] else take (length kept - k) kept)
      in (manager \<lparr> cm_kept := drop (length evicted) kept \<rparr>,
          fold (\<lambda>p d. d(p := None)) evicted (disk(path \<mapsto> snapshot)),
          state(cm_directory manager \<mapsto> drop (length evicted) kept)))"

text \<open>
  \<^verbatim>\<open>ckpt.restore(path)\<close>, also of the checkpoint library: the saved values are written
  into the checkpoint's two variables and into the four objects it refers to. A path
  that holds no checkpoint is an error.
\<close>

definition Checkpoint_restore ::
  "Checkpoint \<Rightarrow> ckpt_path \<Rightarrow> (ref \<Rightarrow> 'w) \<Rightarrow> (ckpt_path \<rightharpoonup> 'w Snapshot) \<Rightarrow>
   error + (Checkpoint \<times> (ref \<Rightarrow> 'w))"
where
  "Checkpoint_restore c path heap disk =
     (case disk path of
        None \<Rightarrow> Inl NotFoundError
      | Some snapshot \<Rightarrow>
          Inr (c \<lparr> ck_steps := snap_steps snapshot, ck_epochs := snap_epochs snapshot \<rparr>,
               heap (ck_generator c := snap_generator snapshot,
                     ck_discriminator c := snap_discriminator snapshot,
                     ck_gen_optimizer c := snap_gen_optimizer snapshot,
                     ck_dis_optimizer c := snap_dis_optimizer snapshot)))"

subsection \<open>The trainer object\<close>

text \<open>
  The attributes of a \<^verbatim>\<open>GanBasedTrainer\<close>. An attribute that only a later method call
  creates is \<open>None\<close> until then, and reading it raises \<^verbatim>\<open>AttributeError\<close>. The last
  three fields are not attributes: \<open>heap\<close> holds the variables of the model and
  optimizer objects, \<open>disk\<close> the checkpoint files and \<open>checkpoint_state\<close> the state
  file of every checkpoint directory that has one, the parts of the world outside the
  object that its methods read and write. A subclass extends the record.

  The summary writer and the log messages have no effect on any of this and are left
  out; \<open>tqdm\<close> is the progress bar's counter.
\<close>

record ('b, 'w) GanBasedTrainer =
  steps :: number
  epochs :: number
  config :: "string \<rightharpoonup> cfg_value"
  finish_train :: bool
  is_generator_mixed_precision :: bool
  is_discriminator_mixed_precision :: bool
  train_data_loader :: "'b list option"
  eval_data_loader :: "'b list option"
  generator :: "ref option"
  discriminator :: "ref option"
  gen_optimizer :: "ref option"
  dis_optimizer :: "ref option"
  ckpt :: "Checkpoint option"
  ckp_manager :: "CheckpointManager option"
  tqdm :: "int option"
  train_steps_per_epoch :: "nat option"
  heap :: "ref \<Rightarrow> 'w"
  disk :: "ckpt_path \<rightharpoonup> 'w Snapshot"
  checkpoint_state :: "string \<rightharpoonup> ckpt_path list"

type_synonym ('b, 'w, 'z) trainer = "('b, 'w, 'z) GanBasedTrainer_scheme"

text \<open>
  What a method call leaves behind: the exception it raised, if any, and the object (with
  the world) as it is then. A Python exception does not undo the assignments made
  before it.
\<close>

type_synonym 's outcome = "error option \<times> 's"

text \<open>
  The abstract methods a subclass supplies and \<^verbatim>\<open>_train_epoch\<close> calls:
  \<^verbatim>\<open>_train_step(batch)\<close>, \<^verbatim>\<open>_eval_epoch()\<close>, \<^verbatim>\<open>_check_log_interval()\<close> and
  \<^verbatim>\<open>_check_train_finish()\<close>. (An Isabelle name cannot start with an underscore.)
\<close>

record ('b, 's) hooks =
  train_step :: "'b \<Rightarrow> 's \<Rightarrow> 's outcome"
  eval_epoch :: "'s \<Rightarrow> 's outcome"
  check_log_interval :: "'s \<Rightarrow> 's outcome"
  check_train_finish :: "'s \<Rightarrow> 's outcome"

text \<open>
  \<^verbatim>\<open>__init__\<close>; \<open>world\<close> gives the heap and the files the new object lives with, and
  the fields a subclass adds.
\<close>

definition GanBasedTrainer_init ::
  "number \<Rightarrow> number \<Rightarrow> (string \<rightharpoonup> cfg_value) \<Rightarrow> bool \<Rightarrow> bool \<Rightarrow>
   ('b, 'w, 'z) trainer \<Rightarrow> error + ('b, 'w, 'z) trainer"
where
  "GanBasedTrainer_init steps0 epochs0 config0 gen_mixed dis_mixed world =
     (case config0 ''outdir'' of
        None \<Rightarrow> Inl KeyError
      | Some outdir \<Rightarrow>
          Inr (world \<lparr> steps := steps0, epochs := epochs0, config := config0,
                       finish_train := False,
                       is_generator_mixed_precision := gen_mixed,
                       is_discriminator_mixed_precision := dis_mixed,
                       train_data_loader := None, eval_data_loader := None,
                       generator := None, discriminator := None,
                       gen_optimizer := None, dis_optimizer := None,
                       ckpt := None, ckp_manager := None, tqdm := None,
                       train_steps_per_epoch := None \<rparr>))"

definition set_train_data_loader :: "'b list \<Rightarrow> ('b, 'w, 'z) trainer \<Rightarrow> ('b, 'w, 'z) trainer" where
  "set_train_data_loader train_dataset self = self \<lparr> train_data_loader := Some train_dataset \<rparr>"

definition set_gen_model :: "ref \<Rightarrow> ('b, 'w, 'z) trainer \<Rightarrow> ('b, 'w, 'z) trainer" where
  "set_gen_model generator_model self = self \<lparr> generator := Some generator_model \<rparr>"

definition set_dis_model :: "ref \<Rightarrow> ('b, 'w, 'z) trainer \<Rightarrow> ('b, 'w, 'z) trainer" where
  "set_dis_model discriminator_model self = self \<lparr> discriminator := Some discriminator_model \<rparr>"

text \<open>
  The optimizer setters wrap the optimizer when mixed precision is on;
  \<open>loss_scale_optimizer\<close> stands for the library's wrapper class, which makes a new
  object around the given one.
\<close>

definition set_gen_optimizer ::
  "(ref \<Rightarrow> ref) \<Rightarrow> ref \<Rightarrow> ('b, 'w, 'z) trainer \<Rightarrow> ('b, 'w, 'z) trainer" where
  "set_gen_optimizer loss_scale_optimizer generator_optimizer self =
     (if is_generator_mixed_precision self
      then self \<lparr> gen_optimizer := Some (loss_scale_optimizer generator_optimizer) \<rparr>
      else self \<lparr> gen_optimizer := Some generator_optimizer \<rparr>)"

definition set_dis_optimizer ::
  "(ref \<Rightarrow> ref) \<Rightarrow> ref \<Rightarrow> ('b, 'w, 'z) trainer \<Rightarrow> ('b, 'w, 'z) trainer" where
  "set_dis_optimizer loss_scale_optimizer discriminator_optimizer self =
     (if is_discriminator_mixed_precision self
      then self \<lparr> dis_optimizer := Some (loss_scale_optimizer discriminator_optimizer) \<rparr>
      else self \<lparr> dis_optimizer := Some discriminator_optimizer \<rparr>)"

text \<open>
  \<^verbatim>\<open>create_checkpoint_manager(saved_path, max_to_keep)\<close>. The default directory is
  \<^verbatim>\<open>config["outdir"] + '/checkpoints/'\<close>. The getters raise when a model or an optimizer
  was never set, and the manager's constructor refuses a cap that is not positive; by
  then \<^verbatim>\<open>self.ckpt\<close> is already assigned. A new manager retains the paths that the
  state file of its directory records, and none if there is no such file.
\<close>

definition create_checkpoint_manager ::
  "string option \<Rightarrow> int option \<Rightarrow> ('b, 'w, 'z) trainer \<Rightarrow> ('b, 'w, 'z) trainer outcome" where
  "create_checkpoint_manager saved_path max_to_keep self =
     (case (case saved_path of
              Some p \<Rightarrow> Inr p
            | None \<Rightarrow>
                (case config self ''outdir'' of
                   None \<Rightarrow> Inl KeyError
                 | Some (CInt _) \<Rightarrow> Inl TypeError
                 | Some (CStr outdir) \<Rightarrow> Inr (outdir @ ''/checkpoints/''))) of
        Inl e \<Rightarrow> (Some e, self)
      | Inr directory \<Rightarrow>
     (case generator self of None \<Rightarrow> (Some AttributeError, self) | Some g \<Rightarrow>
     (case discriminator self of None \<Rightarrow> (Some AttributeError, self) | Some d \<Rightarrow>
     (case gen_optimizer self of None \<Rightarrow> (Some AttributeError, self) | Some go \<Rightarrow>
     (case dis_optimizer self of None \<Rightarrow> (Some AttributeError, self) | Some do \<Rightarrow>
        (let self1 = self \<lparr> ckpt := Some \<lparr> ck_steps = 1, ck_epochs = 1, ck_generator = g,
                                           ck_discriminator = d, ck_gen_optimizer = go,
                                           ck_dis_optimizer = do \<rparr> \<rparr>;
             recovered = (case checkpoint_state self directory of
                            None \<Rightarrow> []
                          | Some paths \<Rightarrow> paths)
         in case max_to_keep of
              None \<Rightarrow>
                (None, self1 \<lparr> ckp_manager := Some \<lparr> cm_directory = directory,
                                  cm_max_to_keep = None, cm_kept = recovered \<rparr> \<rparr>)
            | Some k \<Rightarrow>
                if k \<le> 0 then (Some ValueError, self1)
                else (None, self1 \<lparr> ckp_manager := Some \<lparr> cm_directory = directory,
                                  cm_max_to_keep = Some (nat k), cm_kept = recovered \<rparr> \<rparr>)))))))"

subsection \<open>Saving and loading\<close>

text \<open>
  \<^verbatim>\<open>save_checkpoint\<close>, lines 128-132. The checkpoint number is the value of
  \<^verbatim>\<open>self.steps\<close>, whatever its width.
\<close>

definition save_checkpoint :: "('b, 'w, 'z) trainer \<Rightarrow> ('b, 'w, 'z) trainer outcome" where
  "save_checkpoint self =
     (case ckpt self of
        None \<Rightarrow> (Some AttributeError, self)
      | Some c \<Rightarrow>
     (case Variable_assign (steps self) of
        Inl e \<Rightarrow> (Some e, self)
      | Inr steps32 \<Rightarrow>
     (case Variable_assign (epochs self) of
        Inl e \<Rightarrow> (Some e, self \<lparr> ckpt := Some (c \<lparr> ck_steps := steps32 \<rparr>) \<rparr>)
      | Inr epochs32 \<Rightarrow>
          (let c' = c \<lparr> ck_steps := steps32, ck_epochs := epochs32 \<rparr>;
               self1 = self \<lparr> ckpt := Some c' \<rparr>
           in case ckp_manager self1 of
                None \<Rightarrow> (Some AttributeError, self1)
              | Some manager \<Rightarrow>
                  (case CheckpointManager_save manager c' (int_of (steps self1)) (heap self1)
                          (disk self1) (checkpoint_state self1) of
                     (manager', disk', state') \<Rightarrow>
                       (None, self1 \<lparr> ckp_manager := Some manager', disk := disk',
                                      checkpoint_state := state' \<rparr>))))))"

text \<open>
  \<^verbatim>\<open>load_checkpoint(pretrained_path)\<close>, lines 134-142. \<^verbatim>\<open>.numpy()\<close> returns the
  value of a variable as an \<^verbatim>\<open>int32\<close> scalar, and that scalar is what the two
  counters are from then on.
\<close>

definition load_checkpoint :: "ckpt_path \<Rightarrow> ('b, 'w, 'z) trainer \<Rightarrow> ('b, 'w, 'z) trainer outcome" where
  "load_checkpoint pretrained_path self =
     (case ckpt self of
        None \<Rightarrow> (Some AttributeError, self)
      | Some c \<Rightarrow>
          (case Checkpoint_restore c pretrained_path (heap self) (disk self) of
             Inl e \<Rightarrow> (Some e, self)
           | Inr (c', heap') \<Rightarrow>
               (None, self \<lparr> ckpt := Some c', heap := heap',
                             steps := NpInt32 (ck_steps c'),
                             epochs := NpInt32 (ck_epochs c'),
                             generator := Some (ck_generator c'),
                             discriminator := Some (ck_discriminator c'),
                             gen_optimizer := Some (ck_gen_optimizer c'),
                             dis_optimizer := Some (ck_dis_optimizer c') \<rparr>)))"

subsection \<open>The epoch loop\<close>

text \<open>
  The calls \<^verbatim>\<open>_train_epoch\<close> makes, in the order it makes them, are recorded as a trace:
  one event for every call of an abstract method, of the two interval checks of the base
  class, and of \<^verbatim>\<open>save_checkpoint\<close> (with the integer \<^verbatim>\<open>self.steps\<close> stands for at
  the call).
  The trace is written by the base class alone; the methods of the subclass cannot
  touch it.
\<close>

datatype 'b event =
    TrainStep 'b
  | CheckTrainFinish
  | CheckLogInterval
  | CheckEvalInterval
  | EvalEpoch
  | CheckSaveInterval
  | SaveCheckpoint int

type_synonym ('b, 's) traced = "'b event list \<times> error option \<times> 's"

text \<open>One statement after another: an exception in the first skips the second.\<close>

definition and_then :: "('b, 's) traced \<Rightarrow> ('s \<Rightarrow> ('b, 's) traced) \<Rightarrow> ('b, 's) traced" where
  "and_then first second =
     (case first of
        (t, Some e, s) \<Rightarrow> (t, Some e, s)
      | (t, None, s) \<Rightarrow> (case second s of (t', r, s') \<Rightarrow> (t @ t', r, s')))"

text \<open>A call of a method, recorded.\<close>

definition call :: "'b event \<Rightarrow> ('s \<Rightarrow> 's outcome) \<Rightarrow> 's \<Rightarrow> ('b, 's) traced" where
  "call ev method s = (case method s of (r, s') \<Rightarrow> ([ev], r, s'))"

text \<open>\<^verbatim>\<open>_check_eval_interval\<close>, lines 191-194.\<close>

definition check_eval_interval ::
  "('b, ('b, 'w, 'z) trainer) hooks \<Rightarrow> ('b, 'w, 'z) trainer \<Rightarrow> ('b, ('b, 'w, 'z) trainer) traced"
where
  "check_eval_interval hooks self =
     (case config self ''eval_interval_steps'' of
        None \<Rightarrow> ([CheckEvalInterval], Some KeyError, self)
      | Some interval \<Rightarrow>
          (case py_mod (steps self) interval of
             Inl e \<Rightarrow> ([CheckEvalInterval], Some e, self)
           | Inr r \<Rightarrow>
               if int_of r = 0
               then and_then ([CheckEvalInterval], None, self) (call EvalEpoch (eval_epoch hooks))
               else ([CheckEvalInterval], None, self)))"

text \<open>\<^verbatim>\<open>_check_save_interval\<close>, lines 196-200.\<close>

definition check_save_interval ::
  "('b, 'w, 'z) trainer \<Rightarrow> ('b, ('b, 'w, 'z) trainer) traced"
where
  "check_save_interval self =
     (case config self ''save_interval_steps'' of
        None \<Rightarrow> ([CheckSaveInterval], Some KeyError, self)
      | Some interval \<Rightarrow>
          (case py_mod (steps self) interval of
             Inl e \<Rightarrow> ([CheckSaveInterval], Some e, self)
           | Inr r \<Rightarrow>
               if int_of r = 0
               then and_then ([CheckSaveInterval], None, self)
                      (call (SaveCheckpoint (int_of (steps self))) save_checkpoint)
               else ([CheckSaveInterval], None, self)))"

text \<open>Lines 151-152: \<^verbatim>\<open>self.steps += 1\<close> and \<^verbatim>\<open>self.tqdm.update(1)\<close>.\<close>

definition update_counts :: "('b, 'w, 'z) trainer \<Rightarrow> ('b, ('b, 'w, 'z) trainer) traced" where
  "update_counts self =
     (let self1 = self \<lparr> steps := add_one (steps self) \<rparr>
      in case tqdm self1 of
           None \<Rightarrow> ([], Some AttributeError, self1)
         | Some n \<Rightarrow> ([], None, self1 \<lparr> tqdm := Some (n + 1) \<rparr>))"

text \<open>Lines 156-159: the three checks, for the process whose rank is 0.\<close>

definition check_interval ::
  "('b, ('b, 'w, 'z) trainer) hooks \<Rightarrow> ('b, 'w, 'z) trainer \<Rightarrow> ('b, ('b, 'w, 'z) trainer) traced"
where
  "check_interval hooks self =
     (case config self ''rank'' of
        None \<Rightarrow> ([], Some KeyError, self)
      | Some rank \<Rightarrow>
          if rank = CInt 0
          then and_then (call CheckLogInterval (check_log_interval hooks) self) (\<lambda>self.
               and_then (check_eval_interval hooks self)
                 check_save_interval)
          else ([], None, self))"

text \<open>The body of the loop for one batch, lines 148-159.\<close>

definition train_iteration ::
  "('b, ('b, 'w, 'z) trainer) hooks \<Rightarrow> 'b \<Rightarrow> ('b, 'w, 'z) trainer \<Rightarrow>
   ('b, ('b, 'w, 'z) trainer) traced"
where
  "train_iteration hooks batch self =
     and_then (call (TrainStep batch) (train_step hooks batch) self) (\<lambda>self.
     and_then (update_counts self) (\<lambda>self.
     and_then (call CheckTrainFinish (check_train_finish hooks) self)
       (check_interval hooks)))"

text \<open>
  How the loop, and with it \<^verbatim>\<open>_train_epoch\<close>, is left: the batches ran out, the
  \<^verbatim>\<open>return\<close> of line 163 was taken, or an exception was raised.
\<close>

datatype exit = Exhausted | Returned | Raised error

text \<open>The \<^verbatim>\<open>for\<close> loop over the batches that are still to come, lines 146-163.\<close>

fun train_loop ::
  "('b, ('b, 'w, 'z) trainer) hooks \<Rightarrow> 'b list \<Rightarrow> ('b, 'w, 'z) trainer \<Rightarrow>
   'b event list \<times> exit \<times> ('b, 'w, 'z) trainer"
where
  "train_loop hooks [] self = ([], Exhausted, self)"
| "train_loop hooks (batch # rest) self =
     (case train_iteration hooks batch self of
        (t, Some e, self1) \<Rightarrow> (t, Raised e, self1)
      | (t, None, self1) \<Rightarrow>
          if finish_train self1 then (t, Returned, self1)
          else (case train_loop hooks rest self1 of
                  (t', x, self2) \<Rightarrow> (t @ t', x, self2)))"

text \<open>
  \<^verbatim>\<open>_train_epoch\<close>, lines 144-169. Line 146 reads \<^verbatim>\<open>self.train_data_loader\<close> once.
  After the loop \<^verbatim>\<open>self.epochs\<close> is incremented; the loop variable
  \<^verbatim>\<open>train_steps_per_epoch\<close> read on line 167 was never bound when there was no batch.
\<close>

definition train_epoch ::
  "('b, ('b, 'w, 'z) trainer) hooks \<Rightarrow> ('b, 'w, 'z) trainer \<Rightarrow>
   'b event list \<times> exit \<times> ('b, 'w, 'z) trainer"
where
  "train_epoch hooks self =
     (case train_data_loader self of
        None \<Rightarrow> ([], Raised AttributeError, self)
      | Some batches \<Rightarrow>
          (case train_loop hooks batches self of
             (t, Exhausted, self1) \<Rightarrow>
               (let self2 = self1 \<lparr> epochs := add_one (epochs self1) \<rparr>
                in if batches = [] then (t, Raised UnboundLocalError, self2)
                   else (t, Exhausted, self2 \<lparr> train_steps_per_epoch := Some (length batches) \<rparr>))
           | (t, x, self1) \<Rightarrow> (t, x, self1)))"

section \<open>Predicates and example data used to state the properties\<close>

text \<open>
  An entry whose leading dimension is longer than the threshold: the test
  \<^verbatim>\<open>lengths[idx] > threshold\<close> of the source, on the file itself. A file that cannot be
  loaded, or whose array has no dimension, is not longer than anything.
\<close>

definition longer_than :: "'a loader \<Rightarrow> int \<Rightarrow> string \<Rightarrow> bool" where
  "longer_than load_fn threshold f =
     (case load_length load_fn f of Inl e \<Rightarrow> False | Inr n \<Rightarrow> int n > threshold)"

text \<open>A threshold that is \<^verbatim>\<open>None\<close> lets every entry pass.\<close>

definition passes :: "'a loader \<Rightarrow> int option \<Rightarrow> string \<Rightarrow> bool" where
  "passes load_fn length_threshold f =
     (case length_threshold of
        None \<Rightarrow> True
      | Some threshold \<Rightarrow> longer_than load_fn threshold f)"

text \<open>
  The positions of a list whose entry is longer than the threshold, in increasing order:
  the value of \<^verbatim>\<open>idxs\<close> in a threshold block when every file of the list loads.
\<close>

definition long_positions :: "'a loader \<Rightarrow> int \<Rightarrow> string list \<Rightarrow> nat list" where
  "long_positions load_fn threshold files =
     filter (\<lambda>i. longer_than load_fn threshold (files ! i)) [0..<length files]"

text \<open>
  A small dump directory: three utterances whose waveforms have 50, 150 and 200 samples
  and whose features have 1, 3 and 4 frames of two channels. The listing is not in
  sorted order.
\<close>

definition wave :: "nat \<Rightarrow> int ndarray" where
  "wave n = NDArray [n] (replicate n 0)"

definition feats :: "nat \<Rightarrow> int ndarray" where
  "feats n = NDArray [n, 2] (replicate (2 * n) 0)"

definition example_find_files :: "string \<Rightarrow> string \<Rightarrow> string list" where
  "example_find_files root_dir query =
     (if query = ''*-wave.npy'' then [''d/b-wave.npy'', ''d/c-wave.npy'', ''d/a-wave.npy'']
      else if query = ''*-feats.npy'' then [''d/c-feats.npy'', ''d/a-feats.npy'', ''d/b-feats.npy'']
      else [])"

definition example_load_fn :: "int loader" where
  "example_load_fn f =
     (if f = ''d/a-wave.npy'' then Inr (wave 50)
      else if f = ''d/b-wave.npy'' then Inr (wave 150)
      else if f = ''d/c-wave.npy'' then Inr (wave 200)
      else if f = ''d/a-feats.npy'' then Inr (feats 1)
      else if f = ''d/b-feats.npy'' then Inr (feats 3)
      else if f = ''d/c-feats.npy'' then Inr (feats 4)
      else Inl LoadError)"

text \<open>The tuple a generator builds from an id and the loaded arrays.\<close>

definition am_items_of :: "bool \<Rightarrow> string \<Rightarrow> 'a ndarray \<Rightarrow> 'a ndarray \<Rightarrow> 'a am_items" where
  "am_items_of return_utt_id utt_id audio mel =
     (if return_utt_id then IdAudioMel utt_id audio mel else AudioMel audio mel)"

definition single_items_of :: "bool \<Rightarrow> string \<Rightarrow> 'a ndarray \<Rightarrow> 'a single_items" where
  "single_items_of return_utt_id utt_id arr =
     (if return_utt_id then IdArray utt_id arr else Array arr)"

text \<open>The same directory, listed in another order.\<close>

definition example_find_files_again :: "string \<Rightarrow> string \<Rightarrow> string list" where
  "example_find_files_again root_dir query = rev (example_find_files root_dir query)"


text \<open>
  The datasets the two audio constructors return for that directory with an audio threshold
  of 100 (see \<open>example_dataset_constructed\<close> below).
\<close>

definition example_dataset :: "int AudioMelDataset" where
  "example_dataset =
     \<lparr> am_utt_ids = [''b'', ''c''],
       am_audio_files = [''d/b-wave.npy'', ''d/c-wave.npy''],
       am_mel_files = [''d/b-feats.npy'', ''d/c-feats.npy''],
       am_audio_load_fn = example_load_fn,
       am_mel_load_fn = example_load_fn,
       am_return_utt_id = True \<rparr>"

definition example_audio_dataset :: "int AudioDataset" where
  "example_audio_dataset =
     \<lparr> a_utt_ids = [''b'', ''c''],
       a_audio_files = [''d/b-wave.npy'', ''d/c-wave.npy''],
       a_audio_load_fn = example_load_fn,
       a_return_utt_id = False \<rparr>"


text \<open>
  The wording of the specification for the legacy id rule, kept apart from the code's
  \<open>replace\<close>: the name with the token stripped from its end, once, and unchanged when
  it does not end with the token.
\<close>

definition strip_suffix :: "string \<Rightarrow> string \<Rightarrow> string" where
  "strip_suffix token s =
     (if suffix token s then take (length s - length token) s else s)"

text \<open>
  A directory where a dump was renamed by appending the token again, the generic
  container files of the default queries, and the datasets constructed from them.
\<close>

definition renamed_find_files :: "string \<Rightarrow> string \<Rightarrow> string list" where
  "renamed_find_files root_dir query =
     (if query = ''*.npy'' then [''d/utt1-wave.npy-wave.npy'']
      else if query = ''*.h5'' then [''d/utt1.h5'']
      else [])"

definition h5_find_files :: "string \<Rightarrow> string \<Rightarrow> string list" where
  "h5_find_files root_dir query = (if query = ''*.h5'' then [''d/utt2.h5'', ''d/utt1.h5''] else [])"

definition h5_audio_dataset :: "int AudioDataset" where
  "h5_audio_dataset =
     \<lparr> a_utt_ids = [''utt1'', ''utt2''],
       a_audio_files = [''d/utt1.h5'', ''d/utt2.h5''],
       a_audio_load_fn = example_load_fn,
       a_return_utt_id = False \<rparr>"

definition example_mel_dataset :: "int MelDataset" where
  "example_mel_dataset =
     \<lparr> m_utt_ids = [''a'', ''b'', ''c''],
       m_mel_files = [''d/a-feats.npy'', ''d/b-feats.npy'', ''d/c-feats.npy''],
       m_mel_load_fn = example_load_fn,
       m_return_utt_id = False \<rparr>"


text \<open>A directory in which the features of the third utterance were never dumped.\<close>

definition unpaired_find_files :: "string \<Rightarrow> string \<Rightarrow> string list" where
  "unpaired_find_files root_dir query =
     (if query = ''*-wave.npy'' then [''d/a-wave.npy'', ''d/b-wave.npy'', ''d/c-wave.npy'']
      else if query = ''*-feats.npy'' then [''d/a-feats.npy'', ''d/b-feats.npy'']
      else [])"

text \<open>A directory in which only a feature file was dumped: nothing matches the audio query.\<close>

definition mel_only_find_files :: "string \<Rightarrow> string \<Rightarrow> string list" where
  "mel_only_find_files root_dir query =
     (if query = ''*-feats.npy'' then [''d/a-feats.npy''] else [])"


text \<open>
  A method that behaves as the loop expects of a hook: it raises nothing and leaves the
  step counter, the configuration and the progress bar alone.
\<close>

definition well_behaved :: "(('b, 'w, 'z) trainer \<Rightarrow> ('b, 'w, 'z) trainer outcome) \<Rightarrow> bool" where
  "well_behaved method =
     (\<forall>self. fst (method self) = None
           \<and> steps (snd (method self)) = steps self
           \<and> config (snd (method self)) = config self
           \<and> tqdm (snd (method self)) = tqdm self)"

definition well_behaved_hooks :: "('b, ('b, 'w, 'z) trainer) hooks \<Rightarrow> bool" where
  "well_behaved_hooks hooks =
     ((\<forall>batch. well_behaved (train_step hooks batch))
      \<and> well_behaved (eval_epoch hooks)
      \<and> well_behaved (check_log_interval hooks)
      \<and> well_behaved (check_train_finish hooks))"

text \<open>A method that does not assign \<^verbatim>\<open>self.epochs\<close>.\<close>

definition keeps_epochs :: "(('b, 'w, 'z) trainer \<Rightarrow> ('b, 'w, 'z) trainer outcome) \<Rightarrow> bool" where
  "keeps_epochs method = (\<forall>self. epochs (snd (method self)) = epochs self)"

definition hooks_keep_epochs :: "('b, ('b, 'w, 'z) trainer) hooks \<Rightarrow> bool" where
  "hooks_keep_epochs hooks =
     ((\<forall>batch. keeps_epochs (train_step hooks batch))
      \<and> keeps_epochs (eval_epoch hooks)
      \<and> keeps_epochs (check_log_interval hooks)
      \<and> keeps_epochs (check_train_finish hooks))"

text \<open>The batches a trace shows to have been passed to \<^verbatim>\<open>_train_step\<close>, in order.\<close>

fun trained :: "'b event list \<Rightarrow> 'b list" where
  "trained [] = []"
| "trained (TrainStep batch # t) = batch # trained t"
| "trained (ev # t) = trained t"

text \<open>
  In the trace, every call of \<^verbatim>\<open>_train_step\<close> is followed at once by a call of
  \<^verbatim>\<open>_check_train_finish\<close>.
\<close>

fun finish_checked :: "'b event list \<Rightarrow> bool" where
  "finish_checked [] = True"
| "finish_checked (TrainStep batch # CheckTrainFinish # t) = finish_checked t"
| "finish_checked (TrainStep batch # t) = False"
| "finish_checked (ev # t) = finish_checked t"

text \<open>A traced computation that leaves \<open>epochs\<close> alone and calls no training step.\<close>

definition side_step :: "(('b, 'w, 'z) trainer \<Rightarrow> ('b, ('b, 'w, 'z) trainer) traced) \<Rightarrow> bool" where
  "side_step f = (\<forall>self. trained (fst (f self)) = [] \<and> epochs (snd (snd (f self))) = epochs self)"

text \<open>
  The calls one iteration is expected to make when \<open>n\<close> is the step count after the
  increment, and the calls expected of a loop that starts at step count \<open>n\<close> and
  trains on the given batches.
\<close>

definition step_events :: "cfg_value \<Rightarrow> int \<Rightarrow> int \<Rightarrow> 'b \<Rightarrow> int \<Rightarrow> 'b event list" where
  "step_events rank eval_interval_steps save_interval_steps batch n =
     [TrainStep batch, CheckTrainFinish]
     @ (if rank = CInt 0
        then [CheckLogInterval, CheckEvalInterval]
             @ (if n mod eval_interval_steps = 0 then [EvalEpoch] else [])
             @ [CheckSaveInterval]
             @ (if n mod save_interval_steps = 0 then [SaveCheckpoint n] else [])
        else [])"

fun expected_trace :: "cfg_value \<Rightarrow> int \<Rightarrow> int \<Rightarrow> int \<Rightarrow> 'b list \<Rightarrow> 'b event list" where
  "expected_trace rank eval_interval_steps save_interval_steps n [] = []"
| "expected_trace rank eval_interval_steps save_interval_steps n (batch # rest) =
     step_events rank eval_interval_steps save_interval_steps batch (n + 1)
     @ expected_trace rank eval_interval_steps save_interval_steps (n + 1) rest"

text \<open>
  The state in which an iteration makes its interval checks: after the training step, the
  two counter updates and the finish check. And the state in which the process of rank
  0 makes the save check: after the log check and, where the step count is a multiple
  of the evaluation interval, the evaluation.
\<close>

definition counted ::
  "('b, ('b, 'w, 'z) trainer) hooks \<Rightarrow> 'b \<Rightarrow> ('b, 'w, 'z) trainer \<Rightarrow> ('b, 'w, 'z) trainer" where
  "counted hooks batch self =
     (let s = snd (train_step hooks batch self)
      in snd (check_train_finish hooks
                (s \<lparr> steps := add_one (steps s), tqdm := map_option (\<lambda>n. n + 1) (tqdm s) \<rparr>)))"

definition evaluated ::
  "('b, ('b, 'w, 'z) trainer) hooks \<Rightarrow> int \<Rightarrow> 'b \<Rightarrow> ('b, 'w, 'z) trainer \<Rightarrow> ('b, 'w, 'z) trainer"
where
  "evaluated hooks eval_interval_steps batch self =
     (let s = snd (check_log_interval hooks (counted hooks batch self))
      in if int_of (steps s) mod eval_interval_steps = 0 then snd (eval_epoch hooks s) else s)"

text \<open>An integer that a signed 32-bit variable holds without loss.\<close>

definition fits_int32 :: "int \<Rightarrow> bool" where
  "fits_int32 v = (- (2 ^ 31) \<le> v \<and> v < 2 ^ 31)"

text \<open>
  A trainer for the examples: its subclass stops training once \<^verbatim>\<open>steps\<close> has reached
  \<^verbatim>\<open>train_max_steps\<close>, a training step adds the batch to the generator's variable, and
  an evaluation counts itself in the variable of a metric object (reference 4).
\<close>

definition example_config :: "string \<rightharpoonup> cfg_value" where
  "example_config =
     [''outdir'' \<mapsto> CStr ''out'', ''rank'' \<mapsto> CInt 0, ''train_max_steps'' \<mapsto> CInt 4,
      ''eval_interval_steps'' \<mapsto> CInt 2, ''save_interval_steps'' \<mapsto> CInt 3]"

definition example_trainer :: "(nat, int) GanBasedTrainer" where
  "example_trainer =
     \<lparr> steps = PyInt 0, epochs = PyInt 0, config = example_config, finish_train = False,
       is_generator_mixed_precision = False, is_discriminator_mixed_precision = False,
       train_data_loader = Some [10, 11, 12, 13, 14, 15], eval_data_loader = None,
       generator = Some 0, discriminator = Some 1, gen_optimizer = Some 2,
       dis_optimizer = Some 3, ckpt = None, ckp_manager = None, tqdm = Some 0,
       train_steps_per_epoch = None, heap = (\<lambda>r. 0), disk = Map.empty,
       checkpoint_state = Map.empty \<rparr>"

definition example_hooks :: "(nat, (nat, int) GanBasedTrainer) hooks" where
  "example_hooks =
     \<lparr> train_step = (\<lambda>batch self. (None, self \<lparr> heap := (heap self)(0 := heap self 0 + int batch) \<rparr>)),
       eval_epoch = (\<lambda>self. (None, self \<lparr> heap := (heap self)(4 := heap self 4 + 1) \<rparr>)),
       check_log_interval = (\<lambda>self. (None, self)),
       check_train_finish = (\<lambda>self.
          (case config self ''train_max_steps'' of
             Some (CInt n) \<Rightarrow>
               (None, if int_of (steps self) \<ge> n then self \<lparr> finish_train := True \<rparr> else self)
           | _ \<Rightarrow> (None, self))) \<rparr>"

definition prepared_trainer :: "(nat, int) GanBasedTrainer" where
  "prepared_trainer = snd (create_checkpoint_manager None (Some 10) example_trainer)"


text \<open>
  The same trainer in the middle of training, on a process of rank 1, with a shorter
  data loader, at the moment of a save, in a new process that finds the checkpoint
  directory the save has written, and with a step count of \<open>2^31\<close>, one more than a
  32-bit variable holds.
\<close>

definition trainer_at_step_5 :: "(nat, int) GanBasedTrainer" where
  "trainer_at_step_5 = prepared_trainer \<lparr> steps := PyInt 5 \<rparr>"

definition worker_trainer :: "(nat, int) GanBasedTrainer" where
  "worker_trainer = trainer_at_step_5 \<lparr> config := (config trainer_at_step_5)(''rank'' \<mapsto> CInt 1) \<rparr>"

definition short_epoch_trainer :: "(nat, int) GanBasedTrainer" where
  "short_epoch_trainer = set_train_data_loader [7, 8] prepared_trainer"

definition trainer_at_step_100 :: "(nat, int) GanBasedTrainer" where
  "trainer_at_step_100 = prepared_trainer \<lparr> steps := PyInt 100, epochs := PyInt 7 \<rparr>"

definition restarted_trainer :: "(nat, int) GanBasedTrainer" where
  "restarted_trainer =
     snd (create_checkpoint_manager None (Some 10)
            (example_trainer
               \<lparr> disk := disk (snd (save_checkpoint trainer_at_step_100)),
                 checkpoint_state := checkpoint_state (snd (save_checkpoint trainer_at_step_100)) \<rparr>))"

definition trainer_past_int32 :: "(nat, int) GanBasedTrainer" where
  "trainer_past_int32 = prepared_trainer \<lparr> steps := PyInt 2147483648, epochs := PyInt 7 \<rparr>"

section \<open>Properties of the dataset adapters\<close>

subsection \<open>Indexing and the threshold blocks\<close>

lemma not_isl_projr: "\<not> isl v \<Longrightarrow> v = Inr (projr v)"
  by (cases v) simp_all

lemma gather_eq:
  "gather xs idxs =
     (if \<forall>i\<in>set idxs. i < length xs then Inr (map (nth xs) idxs) else Inl IndexError)"
  by (induction idxs) (auto simp: getitem_def)

lemma gather_Inr_iff:
  "gather xs idxs = Inr ys \<longleftrightarrow> (\<forall>i\<in>set idxs. i < length xs) \<and> ys = map (nth xs) idxs"
  by (auto simp: gather_eq)

lemma load_lengths_Inr:
  "load_lengths load_fn fs = Inr ns \<Longrightarrow> map (load_length load_fn) fs = map Inr ns"
  by (induction fs arbitrary: ns) (auto split: sum.splits)

lemma long_idxs_Inr:
  "\<forall>i\<in>set rng. i < length lengths \<Longrightarrow>
   long_idxs lengths threshold rng = Inr (filter (\<lambda>i. int (lengths ! i) > threshold) rng)"
  by (induction rng) (auto simp: getitem_def)

lemma threshold_idxs_Inr:
  assumes "threshold_idxs load_fn threshold files = Inr idxs"
  shows "idxs = filter (\<lambda>i. longer_than load_fn threshold (files ! i)) [0..<length files]"
proof -
  from assms obtain lengths where l: "load_lengths load_fn files = Inr lengths"
    and i: "long_idxs lengths threshold [0..<length files] = Inr idxs"
    by (auto simp: threshold_idxs_def split: sum.splits)
  from l have m: "map (load_length load_fn) files = map Inr lengths"
    by (rule load_lengths_Inr)
  then have len: "length lengths = length files"
    by (metis length_map)
  have nth: "load_length load_fn (files ! k) = Inr (lengths ! k)" if "k < length files" for k
    using that m len by (metis nth_map)
  from i len have "idxs = filter (\<lambda>i. int (lengths ! i) > threshold) [0..<length files]"
    by (simp add: long_idxs_Inr)
  also have "\<dots> = filter (\<lambda>i. longer_than load_fn threshold (files ! i)) [0..<length files]"
    by (rule filter_cong) (auto simp: longer_than_def nth)
  finally show ?thesis .
qed

lemma filter_as_nth:
  "filter P xs = map (nth xs) (filter (\<lambda>i. P (xs ! i)) [0..<length xs])"
proof -
  have "filter P xs = filter P (map (nth xs) [0..<length xs])"
    by (simp add: map_nth)
  also have "\<dots> = map (nth xs) (filter (P \<circ> nth xs) [0..<length xs])"
    by (simp only: filter_map)
  finally show ?thesis by (simp add: comp_def)
qed

lemma filter_upt_bounded:
  assumes "\<forall>i\<in>set (filter R [0..<n]). i < m"
  shows "filter R [0..<n] = filter R [0..<min n m]"
proof -
  have "[0..<n] = [0..<min n m] @ [min n m..<n]"
    by (metis le_add_diff_inverse min.cobounded1 upt_add_eq_append zero_le)
  moreover have "filter R [min n m..<n] = []"
    using assms by (fastforce simp: filter_empty_conv min_def split: if_splits)
  ultimately show ?thesis
    by (metis append_Nil2 filter_append)
qed

lemma gathered_pairs:
  assumes idxs: "idxs = filter R [0..<n]"
    and bound: "\<forall>i\<in>set idxs. i < m"
    and len: "length zs = min n m"
    and agree: "\<And>i. i < length zs \<Longrightarrow> R i = P (zs ! i)"
  shows "map (nth zs) idxs = filter P zs"
proof -
  have "idxs = filter R [0..<length zs]"
    using idxs bound len filter_upt_bounded [of R n m] by simp
  also have "\<dots> = filter (\<lambda>i. P (zs ! i)) [0..<length zs]"
    by (rule filter_cong) (auto simp: agree)
  finally show ?thesis
    by (simp add: filter_as_nth [of P zs])
qed

lemma zip_map_nth:
  assumes "\<forall>i\<in>set idxs. i < length xs \<and> i < length ys"
  shows "zip (map (nth xs) idxs) (map (nth ys) idxs) = map (nth (zip xs ys)) idxs"
  using assms by (induction idxs) auto

lemma filter_by_audio_Some:
  assumes "filter_by_audio load_fn (Some threshold) (xs, ys) = Inr (xs', ys')"
  shows "xs' = filter (longer_than load_fn threshold) xs"
    and "length xs' = length ys'"
    and "zip xs' ys' = filter (\<lambda>(a, m). longer_than load_fn threshold a) (zip xs ys)"
proof -
  from assms obtain idxs where t: "threshold_idxs load_fn threshold xs = Inr idxs"
    and gx: "gather xs idxs = Inr xs'" and gy: "gather ys idxs = Inr ys'"
    by (auto simp: filter_by_audio_def split: sum.splits)
  let ?R = "\<lambda>i. longer_than load_fn threshold (xs ! i)"
  have idxs: "idxs = filter ?R [0..<length xs]"
    using t by (rule threshold_idxs_Inr)
  have xs': "xs' = map (nth xs) idxs" and ys': "ys' = map (nth ys) idxs"
    and bdy: "\<forall>i\<in>set idxs. i < length ys" and bx: "\<forall>i\<in>set idxs. i < length xs"
    using gx gy by (simp_all add: gather_Inr_iff)
  show "xs' = filter (longer_than load_fn threshold) xs"
    using xs' idxs by (simp add: filter_as_nth [of _ xs])
  show "length xs' = length ys'"
    using xs' ys' by simp
  have "zip xs' ys' = map (nth (zip xs ys)) idxs"
    using xs' ys' bx bdy by (simp add: zip_map_nth)
  also have "\<dots> = filter (\<lambda>(a, m). longer_than load_fn threshold a) (zip xs ys)"
    by (rule gathered_pairs [OF idxs bdy]) auto
  finally show "zip xs' ys' = filter (\<lambda>(a, m). longer_than load_fn threshold a) (zip xs ys)" .
qed

lemma filter_by_mel_Some:
  assumes "filter_by_mel load_fn (Some threshold) (xs, ys) = Inr (xs', ys')"
  shows "ys' = filter (longer_than load_fn threshold) ys"
    and "length xs' = length ys'"
    and "zip xs' ys' = filter (\<lambda>(a, m). longer_than load_fn threshold m) (zip xs ys)"
proof -
  from assms obtain idxs where t: "threshold_idxs load_fn threshold ys = Inr idxs"
    and gx: "gather xs idxs = Inr xs'" and gy: "gather ys idxs = Inr ys'"
    by (auto simp: filter_by_mel_def split: sum.splits)
  let ?R = "\<lambda>i. longer_than load_fn threshold (ys ! i)"
  have idxs: "idxs = filter ?R [0..<length ys]"
    using t by (rule threshold_idxs_Inr)
  have xs': "xs' = map (nth xs) idxs" and ys': "ys' = map (nth ys) idxs"
    and bdy: "\<forall>i\<in>set idxs. i < length ys" and bx: "\<forall>i\<in>set idxs. i < length xs"
    using gx gy by (simp_all add: gather_Inr_iff)
  show "ys' = filter (longer_than load_fn threshold) ys"
    using ys' idxs by (simp add: filter_as_nth [of _ ys])
  show "length xs' = length ys'"
    using xs' ys' by simp
  have "zip xs' ys' = map (nth (zip xs ys)) idxs"
    using xs' ys' bx bdy by (simp add: zip_map_nth)
  also have "\<dots> = filter (\<lambda>(a, m). longer_than load_fn threshold m) (zip xs ys)"
    by (rule gathered_pairs [OF idxs bx]) (auto simp: min.commute)
  finally show "zip xs' ys' = filter (\<lambda>(a, m). longer_than load_fn threshold m) (zip xs ys)" .
qed

lemma filter_by_audio_pairs:
  assumes "filter_by_audio load_fn thr (xs, ys) = Inr (xs', ys')"
  shows "zip xs' ys' = filter (\<lambda>(a, m). passes load_fn thr a) (zip xs ys)"
proof (cases thr)
  case None
  with assms show ?thesis by (simp add: filter_by_audio_def passes_def)
next
  case (Some t)
  with assms show ?thesis by (simp add: filter_by_audio_Some(3) passes_def)
qed

lemma filter_by_mel_pairs:
  assumes "filter_by_mel load_fn thr (xs, ys) = Inr (xs', ys')"
  shows "zip xs' ys' = filter (\<lambda>(a, m). passes load_fn thr m) (zip xs ys)"
proof (cases thr)
  case None
  with assms show ?thesis by (simp add: filter_by_mel_def passes_def)
next
  case (Some t)
  with assms show ?thesis by (simp add: filter_by_mel_Some(3) passes_def)
qed

lemma filter_by_thresholds_pairs:
  assumes "filter_by_thresholds aload mload athr mthr (xs, ys) = Inr (xs', ys')"
  shows "zip xs' ys' =
         filter (\<lambda>(a, m). passes aload athr a \<and> passes mload mthr m) (zip xs ys)"
proof -
  from assms obtain xs1 ys1 where a: "filter_by_audio aload athr (xs, ys) = Inr (xs1, ys1)"
    and m: "filter_by_mel mload mthr (xs1, ys1) = Inr (xs', ys')"
    by (auto simp: filter_by_thresholds_def split: sum.splits)
  have "zip xs' ys' = filter (\<lambda>(a, m). passes mload mthr m)
          (filter (\<lambda>(a, m). passes aload athr a) (zip xs ys))"
    using filter_by_audio_pairs [OF a] filter_by_mel_pairs [OF m] by simp
  also have "\<dots> = filter (\<lambda>(a, m). passes aload athr a \<and> passes mload mthr m) (zip xs ys)"
    by (simp add: case_prod_unfold)
  finally show ?thesis .
qed

lemma filter_by_thresholds_length:
  assumes "filter_by_thresholds aload mload athr mthr (xs, ys) = Inr (xs', ys')"
    and "athr \<noteq> None \<or> mthr \<noteq> None"
  shows "length xs' = length ys'"
proof -
  from assms(1) obtain xs1 ys1 where a: "filter_by_audio aload athr (xs, ys) = Inr (xs1, ys1)"
    and m: "filter_by_mel mload mthr (xs1, ys1) = Inr (xs', ys')"
    by (auto simp: filter_by_thresholds_def split: sum.splits)
  show ?thesis
  proof (cases mthr)
    case (Some t)
    with m show ?thesis by (simp add: filter_by_mel_Some(2))
  next
    case None
    with m have eq: "xs' = xs1" "ys' = ys1" by (simp_all add: filter_by_mel_def)
    from None assms(2) obtain t where "athr = Some t" by auto
    with a eq show ?thesis by (simp add: filter_by_audio_Some(2))
  qed
qed

lemma load_lengths_all:
  assumes "\<forall>f\<in>set files. \<not> isl (load_length load_fn f)"
  shows "load_lengths load_fn files = Inr (map (\<lambda>f. projr (load_length load_fn f)) files)"
  using assms
proof (induction files)
  case Nil
  show ?case by simp
next
  case (Cons f fs)
  then obtain n where "load_length load_fn f = Inr n"
    by (metis list.set_intros(1) not_isl_projr)
  with Cons show ?case by simp
qed

lemma threshold_idxs_total:
  assumes "\<forall>f\<in>set files. \<not> isl (load_length load_fn f)"
  shows "threshold_idxs load_fn threshold files = Inr (long_positions load_fn threshold files)"
proof -
  let ?lengths = "map (\<lambda>f. projr (load_length load_fn f)) files"
  have l: "load_lengths load_fn files = Inr ?lengths"
    using assms by (rule load_lengths_all)
  have "filter (\<lambda>i. threshold < int (?lengths ! i)) [0..<length files]
      = long_positions load_fn threshold files"
    unfolding long_positions_def
  proof (rule filter_cong [OF refl])
    fix i assume "i \<in> set [0..<length files]"
    then have i: "i < length files" by simp
    with assms have "\<not> isl (load_length load_fn (files ! i))" by simp
    then obtain n where "load_length load_fn (files ! i) = Inr n"
      by (metis not_isl_projr)
    with i show "(threshold < int (?lengths ! i)) = longer_than load_fn threshold (files ! i)"
      by (simp add: longer_than_def)
  qed
  then show ?thesis
    by (simp add: threshold_idxs_def l long_idxs_Inr)
qed

lemma long_positions_bounded:
  "i \<in> set (long_positions load_fn threshold files) \<Longrightarrow> i < length files"
  by (simp add: long_positions_def)

lemma map_nth_long_positions:
  "map (nth files) (long_positions load_fn threshold files)
   = filter (longer_than load_fn threshold) files"
  by (simp add: long_positions_def filter_as_nth [of _ files])

lemma filter_by_audio_total:
  assumes "\<forall>f\<in>set xs. \<not> isl (load_length load_fn f)"
  shows "filter_by_audio load_fn (Some threshold) (xs, ys) =
           (if list_all (\<lambda>i. i < length ys) (long_positions load_fn threshold xs)
            then Inr (filter (longer_than load_fn threshold) xs,
                      map (nth ys) (long_positions load_fn threshold xs))
            else Inl IndexError)"
  using long_positions_bounded [of _ load_fn threshold xs]
  by (auto simp: filter_by_audio_def threshold_idxs_total [OF assms] gather_eq list_all_iff
      map_nth_long_positions)

lemma filter_by_mel_total:
  assumes "\<forall>f\<in>set ys. \<not> isl (load_length load_fn f)"
  shows "filter_by_mel load_fn (Some threshold) (xs, ys) =
           (if list_all (\<lambda>i. i < length xs) (long_positions load_fn threshold ys)
            then Inr (map (nth xs) (long_positions load_fn threshold ys),
                      filter (longer_than load_fn threshold) ys)
            else Inl IndexError)"
  using long_positions_bounded [of _ load_fn threshold ys]
  by (auto simp: filter_by_mel_def threshold_idxs_total [OF assms] gather_eq list_all_iff
      map_nth_long_positions)

lemma filter_by_thresholds_total:
  assumes la: "\<forall>f\<in>set xs. \<not> isl (load_length aload f)"
    and lm: "\<forall>f\<in>set ys. \<not> isl (load_length mload f)"
    and len: "length xs = length ys"
  shows "filter_by_thresholds aload mload athr mthr (xs, ys) =
           Inr (map fst (filter (\<lambda>(a, m). passes aload athr a \<and> passes mload mthr m) (zip xs ys)),
                map snd (filter (\<lambda>(a, m). passes aload athr a \<and> passes mload mthr m) (zip xs ys)))"
proof -
  obtain xs1 ys1 where a: "filter_by_audio aload athr (xs, ys) = Inr (xs1, ys1)"
  proof (cases athr)
    case None
    then show ?thesis by (intro that [of xs ys]) (simp add: filter_by_audio_def)
  next
    case (Some t)
    have "list_all (\<lambda>i. i < length ys) (long_positions aload t xs)"
      using long_positions_bounded [of _ aload t xs] len by (simp add: list_all_iff)
    with Some show ?thesis
      by (intro that) (simp add: filter_by_audio_total [OF la])
  qed
  have z1: "zip xs1 ys1 = filter (\<lambda>(a, m). passes aload athr a) (zip xs ys)"
    by (rule filter_by_audio_pairs [OF a])
  have len1: "length xs1 = length ys1"
  proof (cases athr)
    case None
    with a len show ?thesis by (simp add: filter_by_audio_def)
  next
    case (Some t)
    with a show ?thesis by (simp add: filter_by_audio_Some(2))
  qed
  have "set ys1 \<subseteq> set ys"
  proof -
    have "set (zip xs1 ys1) \<subseteq> set (zip xs ys)" by (simp add: z1)
    moreover have "ys1 = map snd (zip xs1 ys1)" using len1 by simp
    moreover have "ys = map snd (zip xs ys)" using len by simp
    ultimately show ?thesis by (metis image_mono set_map)
  qed
  with lm have lm1: "\<forall>f\<in>set ys1. \<not> isl (load_length mload f)" by blast
  obtain xs2 ys2 where m: "filter_by_mel mload mthr (xs1, ys1) = Inr (xs2, ys2)"
  proof (cases mthr)
    case None
    then show ?thesis by (intro that [of xs1 ys1]) (simp add: filter_by_mel_def)
  next
    case (Some t)
    have "list_all (\<lambda>i. i < length xs1) (long_positions mload t ys1)"
      using long_positions_bounded [of _ mload t ys1] len1 by (simp add: list_all_iff)
    with Some show ?thesis
      by (intro that) (simp add: filter_by_mel_total [OF lm1])
  qed
  have f: "filter_by_thresholds aload mload athr mthr (xs, ys) = Inr (xs2, ys2)"
    by (simp add: filter_by_thresholds_def a m)
  have len2: "length xs2 = length ys2"
  proof (cases mthr)
    case None
    with m len1 show ?thesis by (simp add: filter_by_mel_def)
  next
    case (Some t)
    with m show ?thesis by (simp add: filter_by_mel_Some(2))
  qed
  have z: "zip xs2 ys2 = filter (\<lambda>(a, m). passes aload athr a \<and> passes mload mthr m) (zip xs ys)"
    by (rule filter_by_thresholds_pairs [OF f])
  have "xs2 = map fst (zip xs2 ys2)" "ys2 = map snd (zip xs2 ys2)"
    using len2 by simp_all
  with z f show ?thesis by simp
qed


subsection \<open>Sorted order and the constructor\<close>

lemma threshold_idxs_increasing:
  "threshold_idxs load_fn threshold files = Inr idxs \<Longrightarrow> sorted_wrt (<) idxs"
  by (drule threshold_idxs_Inr) (simp add: sorted_wrt_filter)

lemma sorted_gather:
  assumes "sorted xs" "sorted_wrt (<) idxs" "gather xs idxs = Inr xs'"
  shows "sorted xs'"
proof -
  from assms(3) have b: "\<forall>i\<in>set idxs. i < length xs" and x: "xs' = map (nth xs) idxs"
    by (simp_all add: gather_Inr_iff)
  have "sorted_wrt (\<lambda>i j. xs ! i \<le> xs ! j) idxs"
    using assms(2)
  proof (rule sorted_wrt_mono_rel [rotated])
    fix i j assume "i \<in> set idxs" "j \<in> set idxs" "i < j"
    with b assms(1) show "xs ! i \<le> xs ! j"
      by (simp add: sorted_nth_mono)
  qed
  then show ?thesis by (simp add: x sorted_map)
qed

lemma filter_by_audio_sorted:
  assumes "filter_by_audio load_fn thr (xs, ys) = Inr (xs', ys')" "sorted xs" "sorted ys"
  shows "sorted xs' \<and> sorted ys'"
proof (cases thr)
  case None
  with assms show ?thesis by (simp add: filter_by_audio_def)
next
  case (Some t)
  with assms(1) obtain idxs where "threshold_idxs load_fn t xs = Inr idxs"
    and "gather xs idxs = Inr xs'" and "gather ys idxs = Inr ys'"
    by (auto simp: filter_by_audio_def split: sum.splits)
  then show ?thesis
    using assms(2,3) by (blast intro: sorted_gather threshold_idxs_increasing)
qed

lemma filter_by_mel_sorted:
  assumes "filter_by_mel load_fn thr (xs, ys) = Inr (xs', ys')" "sorted xs" "sorted ys"
  shows "sorted xs' \<and> sorted ys'"
proof (cases thr)
  case None
  with assms show ?thesis by (simp add: filter_by_mel_def)
next
  case (Some t)
  with assms(1) obtain idxs where "threshold_idxs load_fn t ys = Inr idxs"
    and "gather xs idxs = Inr xs'" and "gather ys idxs = Inr ys'"
    by (auto simp: filter_by_mel_def split: sum.splits)
  then show ?thesis
    using assms(2,3) by (blast intro: sorted_gather threshold_idxs_increasing)
qed

lemma filter_by_thresholds_sorted:
  assumes "filter_by_thresholds aload mload athr mthr (xs, ys) = Inr (xs', ys')"
    and "sorted xs" "sorted ys"
  shows "sorted xs' \<and> sorted ys'"
proof -
  from assms(1) obtain xs1 ys1 where a: "filter_by_audio aload athr (xs, ys) = Inr (xs1, ys1)"
    and m: "filter_by_mel mload mthr (xs1, ys1) = Inr (xs', ys')"
    by (auto simp: filter_by_thresholds_def split: sum.splits)
  from filter_by_audio_sorted [OF a assms(2,3)] filter_by_mel_sorted [OF m]
  show ?thesis by simp
qed

lemma subseq_gather_filter:
  assumes "\<forall>i\<in>set (filter R [0..<n]). i < length xs"
  shows "subseq (map (nth xs) (filter R [0..<n])) xs"
proof -
  let ?k = "min n (length xs)"
  have "filter R [0..<n] = filter R [0..<?k]"
    by (rule filter_upt_bounded [OF assms])
  moreover have "subseq (map (nth xs) (filter R [0..<?k])) (map (nth xs) [0..<?k])"
    by (intro subseq_map subseq_filter_left)
  moreover have "map (nth xs) [0..<?k] = take ?k xs"
    by (simp add: list_eq_iff_nth_eq)
  moreover have "subseq (take ?k xs) xs"
    by (simp add: prefix_imp_subseq take_is_prefix)
  ultimately show ?thesis
    by (metis subseq_order.trans)
qed

lemma subseq_gather:
  assumes "threshold_idxs load_fn threshold files = Inr idxs" "gather xs idxs = Inr xs'"
  shows "subseq xs' xs"
proof -
  from assms(2) have b: "\<forall>i\<in>set idxs. i < length xs" and x: "xs' = map (nth xs) idxs"
    by (simp_all add: gather_Inr_iff)
  from threshold_idxs_Inr [OF assms(1)] b x show ?thesis
    using subseq_gather_filter by blast
qed

lemma filter_by_audio_subseq:
  assumes "filter_by_audio load_fn thr (xs, ys) = Inr (xs', ys')"
  shows "subseq xs' xs \<and> subseq ys' ys"
proof (cases thr)
  case None
  with assms show ?thesis by (simp add: filter_by_audio_def)
next
  case (Some t)
  with assms obtain idxs where "threshold_idxs load_fn t xs = Inr idxs"
    and "gather xs idxs = Inr xs'" and "gather ys idxs = Inr ys'"
    by (auto simp: filter_by_audio_def split: sum.splits)
  then show ?thesis
    by (blast intro: subseq_gather)
qed

lemma filter_by_mel_subseq:
  assumes "filter_by_mel load_fn thr (xs, ys) = Inr (xs', ys')"
  shows "subseq xs' xs \<and> subseq ys' ys"
proof (cases thr)
  case None
  with assms show ?thesis by (simp add: filter_by_mel_def)
next
  case (Some t)
  with assms obtain idxs where "threshold_idxs load_fn t ys = Inr idxs"
    and "gather xs idxs = Inr xs'" and "gather ys idxs = Inr ys'"
    by (auto simp: filter_by_mel_def split: sum.splits)
  then show ?thesis
    by (blast intro: subseq_gather)
qed

lemma filter_by_thresholds_subseq:
  assumes "filter_by_thresholds aload mload athr mthr (xs, ys) = Inr (xs', ys')"
  shows "subseq xs' xs \<and> subseq ys' ys"
proof -
  from assms obtain xs1 ys1 where a: "filter_by_audio aload athr (xs, ys) = Inr (xs1, ys1)"
    and m: "filter_by_mel mload mthr (xs1, ys1) = Inr (xs', ys')"
    by (auto simp: filter_by_thresholds_def split: sum.splits)
  from filter_by_audio_subseq [OF a] filter_by_mel_subseq [OF m]
  show ?thesis by (metis subseq_order.trans)
qed

lemma AudioMelDataset_init_Inr:
  assumes "AudioMelDataset_init find_files root_dir audio_query mel_query audio_load_fn
             mel_load_fn audio_length_threshold mel_length_threshold return_utt_id = Inr self"
  shows "filter_by_thresholds audio_load_fn mel_load_fn audio_length_threshold
           mel_length_threshold
           (sort (find_files root_dir audio_query), sort (find_files root_dir mel_query))
         = Inr (am_audio_files self, am_mel_files self)"
    and "am_audio_files self \<noteq> []"
    and "length (am_mel_files self) = length (am_audio_files self)"
    and "am_utt_ids self = derive_utt_ids ''-wave.npy'' audio_query (am_audio_files self)"
    and "am_audio_load_fn self = audio_load_fn"
    and "am_mel_load_fn self = mel_load_fn"
    and "am_return_utt_id self = return_utt_id"
  using assms
  by (auto simp: AudioMelDataset_init_def Let_def split: sum.splits if_splits)

lemma length_derive_utt_ids [simp]:
  "length (derive_utt_ids token query files) = length files"
  by (simp add: derive_utt_ids_def)

lemma sort_listing:
  "mset xs = mset ys \<Longrightarrow> sort xs = sort ys"
  by (metis mset_sort properties_for_sort sorted_sort)


subsection \<open>The generators\<close>

lemma AudioMelDataset_generator_from_eq:
  assumes "\<forall>f\<in>set (am_audio_files self). \<not> isl (am_audio_load_fn self f)"
    and "\<forall>f\<in>set (am_mel_files self). \<not> isl (am_mel_load_fn self f)"
    and "length (am_mel_files self) = length (am_audio_files self)"
  shows "AudioMelDataset_generator_from self i utt_ids =
           (map (\<lambda>(j, utt_id). am_items_of (am_return_utt_id self) utt_id
                    (projr (am_audio_load_fn self (am_audio_files self ! j)))
                    (projr (am_mel_load_fn self (am_mel_files self ! j))))
              (zip [i..<length (am_audio_files self)] utt_ids),
            if length utt_ids \<le> length (am_audio_files self) - i then None
            else Some IndexError)"
proof (induction utt_ids arbitrary: i)
  case Nil
  show ?case by simp
next
  case (Cons utt_id rest)
  show ?case
  proof (cases "i < length (am_audio_files self)")
    case False
    then show ?thesis by (simp add: getitem_def)
  next
    case True
    with assms(1) obtain audio
      where a: "am_audio_load_fn self (am_audio_files self ! i) = Inr audio"
      by (metis not_isl_projr nth_mem)
    from True assms(2,3) obtain mel
      where m: "am_mel_load_fn self (am_mel_files self ! i) = Inr mel"
      by (metis not_isl_projr nth_mem)
    from True have u: "[i..<length (am_audio_files self)] = i # [Suc i..<length (am_audio_files self)]"
      by (rule upt_conv_Cons)
    have g: "AudioMelDataset_generator_from self i (utt_id # rest) =
       (am_items_of (am_return_utt_id self) utt_id
          (projr (am_audio_load_fn self (am_audio_files self ! i)))
          (projr (am_mel_load_fn self (am_mel_files self ! i)))
        # fst (AudioMelDataset_generator_from self (Suc i) rest),
        snd (AudioMelDataset_generator_from self (Suc i) rest))"
      using True assms(3) by (simp add: a m getitem_def am_items_of_def Let_def)
    show ?thesis
      using True by (simp only: g Cons.IH u) auto
  qed
qed

lemma single_generator_from_eq:
  assumes "\<forall>f\<in>set files. \<not> isl (load_fn f)"
  shows "single_generator_from files load_fn return_utt_id i utt_ids =
           (map (\<lambda>(j, utt_id). single_items_of return_utt_id utt_id (projr (load_fn (files ! j))))
              (zip [i..<length files] utt_ids),
            if length utt_ids \<le> length files - i then None else Some IndexError)"
proof (induction utt_ids arbitrary: i)
  case Nil
  show ?case by simp
next
  case (Cons utt_id rest)
  show ?case
  proof (cases "i < length files")
    case False
    then show ?thesis by (simp add: getitem_def)
  next
    case True
    with assms obtain arr where a: "load_fn (files ! i) = Inr arr"
      by (metis not_isl_projr nth_mem)
    from True have u: "[i..<length files] = i # [Suc i..<length files]"
      by (rule upt_conv_Cons)
    have g: "single_generator_from files load_fn return_utt_id i (utt_id # rest) =
       (single_items_of return_utt_id utt_id (projr (load_fn (files ! i)))
        # fst (single_generator_from files load_fn return_utt_id (Suc i) rest),
        snd (single_generator_from files load_fn return_utt_id (Suc i) rest))"
      using True by (simp add: a getitem_def single_items_of_def Let_def)
    show ?thesis
      using True by (simp only: g Cons.IH u) auto
  qed
qed


lemma threshold_idxs_all:
  assumes "\<forall>f\<in>set files. longer_than load_fn threshold f"
  shows "threshold_idxs load_fn threshold files = Inr [0..<length files]"
proof -
  have ok: "\<not> isl (load_length load_fn f)" if "f \<in> set files" for f
    using assms that by (cases "load_length load_fn f") (auto simp: longer_than_def)
  let ?lengths = "map (\<lambda>f. projr (load_length load_fn f)) files"
  have l: "load_lengths load_fn files = Inr ?lengths"
    using ok by (simp add: load_lengths_all)
  have "threshold < int (?lengths ! i)" if "i < length files" for i
  proof -
    from that have "longer_than load_fn threshold (files ! i)"
      using assms by simp
    then show ?thesis
      using that by (auto simp: longer_than_def split: sum.splits)
  qed
  then have "filter (\<lambda>i. threshold < int (?lengths ! i)) [0..<length files] = [0..<length files]"
    by (simp add: filter_id_conv)
  then show ?thesis
    by (simp add: threshold_idxs_def l long_idxs_Inr)
qed

lemma gather_all: "length ys = length xs \<Longrightarrow> gather ys [0..<length xs] = Inr ys"
  using map_nth [of ys] by (simp add: gather_eq)

lemma filter_by_audio_all:
  assumes "\<forall>f\<in>set xs. passes load_fn thr f" "length ys = length xs"
  shows "filter_by_audio load_fn thr (xs, ys) = Inr (xs, ys)"
proof (cases thr)
  case None
  then show ?thesis by (simp add: filter_by_audio_def)
next
  case (Some t)
  with assms(1) have "threshold_idxs load_fn t xs = Inr [0..<length xs]"
    by (simp add: threshold_idxs_all passes_def)
  moreover have "gather xs [0..<length xs] = Inr xs"
    by (simp add: gather_all)
  moreover have "gather ys [0..<length xs] = Inr ys"
    using assms(2) by (simp add: gather_all)
  ultimately show ?thesis
    using Some by (simp add: filter_by_audio_def)
qed

lemma filter_by_mel_all:
  assumes "\<forall>f\<in>set ys. passes load_fn thr f" "length ys = length xs"
  shows "filter_by_mel load_fn thr (xs, ys) = Inr (xs, ys)"
proof (cases thr)
  case None
  then show ?thesis by (simp add: filter_by_mel_def)
next
  case (Some t)
  with assms(1) have "threshold_idxs load_fn t ys = Inr [0..<length ys]"
    by (simp add: threshold_idxs_all passes_def)
  moreover have "gather ys [0..<length ys] = Inr ys"
    by (simp add: gather_all)
  moreover have "gather xs [0..<length ys] = Inr xs"
    using assms(2) by (simp add: gather_all)
  ultimately show ?thesis
    using Some by (simp add: filter_by_mel_def)
qed

lemma example_dataset_constructed:
  "AudioMelDataset_init example_find_files ''d'' ''*-wave.npy'' ''*-feats.npy''
     example_load_fn example_load_fn (Some 100) None True = Inr example_dataset"
proof -
  have "filter_by_thresholds example_load_fn example_load_fn (Some 100) None
          (sort (example_find_files ''d'' ''*-wave.npy''),
           sort (example_find_files ''d'' ''*-feats.npy''))
        = Inr ([''d/b-wave.npy'', ''d/c-wave.npy''], [''d/b-feats.npy'', ''d/c-feats.npy''])"
    by code_simp
  moreover have "derive_utt_ids ''-wave.npy'' ''*-wave.npy'' [''d/b-wave.npy'', ''d/c-wave.npy'']
        = [''b'', ''c'']"
    by code_simp
  ultimately show ?thesis
    by (simp add: AudioMelDataset_init_def example_dataset_def)
qed

lemma example_audio_dataset_constructed:
  "AudioDataset_init example_find_files ''d'' ''*-wave.npy'' example_load_fn (Some 100) False
     = Inr example_audio_dataset"
proof -
  have "filter_by_length example_load_fn (Some 100) (sort (example_find_files ''d'' ''*-wave.npy''))
        = Inr [''d/b-wave.npy'', ''d/c-wave.npy'']"
    by code_simp
  moreover have "derive_utt_ids ''-wave.npy'' ''*-wave.npy'' [''d/b-wave.npy'', ''d/c-wave.npy'']
        = [''b'', ''c'']"
    by code_simp
  ultimately show ?thesis
    by (simp add: AudioDataset_init_def example_audio_dataset_def)
qed


subsection \<open>Utterance ids\<close>

lemma replace_absent:
  "token \<noteq> [] \<Longrightarrow> \<not> contains token s \<Longrightarrow> replace token [] s = s"
  by (induction s) auto

lemma prefix_butlast:
  assumes "prefix p s" "length p < length s"
  shows "prefix p (butlast s)"
  using assms prefix_length_prefix prefixeq_butlast by fastforce

lemma prefix_contains: "prefix token s \<Longrightarrow> contains token s"
  by (cases s) auto

lemma replace_suffix_only:
  assumes "token \<noteq> []" "\<not> contains token (butlast (stem @ token))"
  shows "replace token [] (stem @ token) = stem"
  using assms
proof (induction stem)
  case Nil
  then obtain c cs where "token = c # cs" by (cases token) auto
  then show ?case by simp
next
  case (Cons x xs)
  have ne: "xs @ token \<noteq> []" using Cons.prems(1) by simp
  then have bl: "butlast ((x # xs) @ token) = x # butlast (xs @ token)" by simp
  have np: "\<not> prefix token (x # xs @ token)"
  proof
    assume "prefix token (x # xs @ token)"
    then have "prefix token (butlast ((x # xs) @ token))"
      by (intro prefix_butlast) simp_all
    then have "contains token (butlast ((x # xs) @ token))"
      by (rule prefix_contains)
    with Cons.prems(2) show False by simp
  qed
  have "\<not> contains token (butlast (xs @ token))"
    using Cons.prems(2) by (simp only: bl contains.simps) simp
  with Cons.IH Cons.prems(1) have "replace token [] (xs @ token) = xs" by simp
  with np Cons.prems(1) show ?case by simp
qed

lemma contains_or_suffix:
  assumes "contains token s" "token \<noteq> []"
  shows "contains token (butlast s) \<or> suffix token s"
  using assms
proof (induction s)
  case Nil
  then show ?case by simp
next
  case (Cons c cs)
  from Cons.prems(1) consider "prefix token (c # cs)" | "contains token cs" by auto
  then show ?case
  proof cases
    case 1
    show ?thesis
    proof (cases "length token < length (c # cs)")
      case True
      with 1 have "prefix token (butlast (c # cs))" by (rule prefix_butlast)
      then show ?thesis by (blast intro: prefix_contains)
    next
      case False
      with 1 have "token = c # cs"
        by (metis not_less_iff_gr_or_eq prefix_length_less prefix_order.less_le)
      then show ?thesis by simp
    qed
  next
    case 2
    with Cons.IH Cons.prems(2) consider "contains token (butlast cs)" | "suffix token cs" by blast
    then show ?thesis
    proof cases
      case 1
      with Cons.prems(2) have "cs \<noteq> []" by auto
      with 1 show ?thesis by simp
    next
      case 2
      then show ?thesis by (simp add: suffix_ConsI)
    qed
  qed
qed

lemma replace_is_strip_suffix:
  assumes "token \<noteq> []" "\<not> contains token (butlast s)"
  shows "replace token [] s = strip_suffix token s"
proof (cases "suffix token s")
  case True
  then obtain stem where s: "s = stem @ token" by (auto simp: suffix_def)
  with assms have "replace token [] s = stem" by (simp add: replace_suffix_only)
  with s show ?thesis by (simp add: strip_suffix_def suffix_def)
next
  case False
  with assms contains_or_suffix have "\<not> contains token s" by blast
  with assms(1) False show ?thesis by (simp add: replace_absent strip_suffix_def)
qed



lemma h5_audio_dataset_constructed:
  "AudioDataset_init h5_find_files ''d'' ''*.h5'' example_load_fn None False = Inr h5_audio_dataset"
proof -
  have "sort (h5_find_files ''d'' ''*.h5'') = [''d/utt1.h5'', ''d/utt2.h5'']"
    by code_simp
  moreover have "derive_utt_ids ''-wave.npy'' ''*.h5'' [''d/utt1.h5'', ''d/utt2.h5'']
        = [''utt1'', ''utt2'']"
    by code_simp
  ultimately show ?thesis
    by (simp add: AudioDataset_init_def filter_by_length_def h5_audio_dataset_def)
qed

lemma example_mel_dataset_constructed:
  "MelDataset_init example_find_files ''d'' ''*-feats.npy'' example_load_fn (Some 0) False
     = Inr example_mel_dataset"
proof -
  have "filter_by_length example_load_fn (Some 0) (sort (example_find_files ''d'' ''*-feats.npy''))
        = Inr [''d/a-feats.npy'', ''d/b-feats.npy'', ''d/c-feats.npy'']"
    by code_simp
  moreover have "derive_utt_ids ''-feats.npy'' ''*-feats.npy''
          [''d/a-feats.npy'', ''d/b-feats.npy'', ''d/c-feats.npy'']
        = [''a'', ''b'', ''c'']"
    by code_simp
  ultimately show ?thesis
    by (simp add: MelDataset_init_def example_mel_dataset_def)
qed

lemma rfind_from_absent: "c \<notin> set s \<Longrightarrow> rfind_from c s i found = found"
  by (induction s arbitrary: i) auto

lemma rfind_from_append:
  "rfind_from c (xs @ ys) i found = rfind_from c ys (i + length xs) (rfind_from c xs i found)"
  by (induction xs arbitrary: i found) auto

lemma rfind_last: "c \<notin> set ys \<Longrightarrow> rfind c (xs @ c # ys) = int (length xs)"
  by (simp add: rfind_def rfind_from_append rfind_from_absent)

lemma rfind_absent: "c \<notin> set s \<Longrightarrow> rfind c s = - 1"
  by (simp add: rfind_def rfind_from_absent)

lemma splitext_plain:
  assumes "CHR ''/'' \<notin> set stem" "CHR ''/'' \<notin> set ext" "CHR ''.'' \<notin> set ext"
    and "\<exists>c\<in>set stem. c \<noteq> CHR ''.''"
  shows "splitext (stem @ CHR ''.'' # ext) = (stem, CHR ''.'' # ext)"
proof -
  let ?p = "stem @ CHR ''.'' # ext"
  have sep: "rfind (CHR ''/'') ?p = - 1"
    using assms(1,2) by (intro rfind_absent) simp
  have dot: "rfind (CHR ''.'') ?p = int (length stem)"
    using assms(3) by (rule rfind_last)
  from assms(4) obtain k where k: "k < length stem" "stem ! k \<noteq> CHR ''.''"
    by (metis in_set_conv_nth)
  then have "list_ex (\<lambda>k. ?p ! k \<noteq> CHR ''.'') [0..<length stem]"
    by (auto simp: list_ex_iff nth_append intro!: bexI [of _ k])
  then show ?thesis
    by (simp add: splitext_def sep dot)
qed

lemma basename_of_path:
  assumes "CHR ''/'' \<notin> set name"
  shows "basename (dir @ CHR ''/'' # name) = name"
proof -
  have "takeWhile (\<lambda>c. c \<noteq> CHR ''/'') (rev name @ CHR ''/'' # rev dir)
        = rev name @ takeWhile (\<lambda>c. c \<noteq> CHR ''/'') (CHR ''/'' # rev dir)"
    by (rule takeWhile_append2) (use assms in auto)
  then show ?thesis by (simp add: basename_def)
qed

lemma AudioDataset_init_Inr:
  assumes "AudioDataset_init find_files root_dir audio_query audio_load_fn
             audio_length_threshold return_utt_id = Inr self"
  shows "filter_by_length audio_load_fn audio_length_threshold
           (sort (find_files root_dir audio_query)) = Inr (a_audio_files self)"
    and "a_audio_files self \<noteq> []"
    and "a_utt_ids self = derive_utt_ids ''-wave.npy'' audio_query (a_audio_files self)"
  using assms
  by (auto simp: AudioDataset_init_def Let_def split: sum.splits if_splits)

lemma MelDataset_init_Inr:
  assumes "MelDataset_init find_files root_dir mel_query mel_load_fn
             mel_length_threshold return_utt_id = Inr self"
  shows "filter_by_length mel_load_fn mel_length_threshold
           (sort (find_files root_dir mel_query)) = Inr (m_mel_files self)"
    and "m_mel_files self \<noteq> []"
    and "m_utt_ids self = derive_utt_ids ''-feats.npy'' mel_query (m_mel_files self)"
  using assms
  by (auto simp: MelDataset_init_def Let_def split: sum.splits if_splits)


subsection \<open>Validation\<close>

lemma filter_by_length_empty: "filter_by_length load_fn thr [] = Inr []"
  by (cases thr) (simp_all add: filter_by_length_def threshold_idxs_def)

lemma AudioDataset_init_empty:
  "find_files root_dir audio_query = [] \<Longrightarrow>
   AudioDataset_init find_files root_dir audio_query audio_load_fn audio_length_threshold
     return_utt_id = Inl AssertionError"
  by (simp add: AudioDataset_init_def filter_by_length_empty)

lemma MelDataset_init_empty:
  "find_files root_dir mel_query = [] \<Longrightarrow>
   MelDataset_init find_files root_dir mel_query mel_load_fn mel_length_threshold
     return_utt_id = Inl AssertionError"
  by (simp add: MelDataset_init_def filter_by_length_empty)

lemma filter_by_audio_empty:
  "filter_by_audio load_fn (Some t) ([], ys) = Inr ([], [])"
  by (simp add: filter_by_audio_def threshold_idxs_def)

lemma filter_by_mel_empty: "filter_by_mel load_fn thr (xs, []) = Inr (if thr = None then xs else [], [])"
  by (cases thr) (simp_all add: filter_by_mel_def threshold_idxs_def)

lemma AudioMelDataset_init_empty:
  assumes "find_files root_dir audio_query = []"
    and "find_files root_dir mel_query = [] \<or> mel_length_threshold = None
         \<or> audio_length_threshold \<noteq> None"
  shows "AudioMelDataset_init find_files root_dir audio_query mel_query audio_load_fn
           mel_load_fn audio_length_threshold mel_length_threshold return_utt_id
         = Inl AssertionError"
proof (cases audio_length_threshold)
  case (Some t)
  then show ?thesis
    using assms(1)
    by (simp add: AudioMelDataset_init_def filter_by_thresholds_def filter_by_audio_empty
        filter_by_mel_empty)
next
  case None
  with assms(2) consider "find_files root_dir mel_query = []" | "mel_length_threshold = None"
    by auto
  then show ?thesis
  proof cases
    case 1
    with None assms(1) show ?thesis
      by (simp add: AudioMelDataset_init_def filter_by_thresholds_def filter_by_audio_def
          filter_by_mel_empty)
  next
    case 2
    with None assms(1) show ?thesis
      by (simp add: AudioMelDataset_init_def filter_by_thresholds_def filter_by_audio_def
          filter_by_mel_def)
  qed
qed

lemma AudioMelDataset_init_no_audio_fails:
  assumes "find_files root_dir audio_query = []"
  shows "isl (AudioMelDataset_init find_files root_dir audio_query mel_query audio_load_fn
           mel_load_fn audio_length_threshold mel_length_threshold return_utt_id)"
proof (rule ccontr)
  assume "\<not> ?thesis"
  then obtain self where i: "AudioMelDataset_init find_files root_dir audio_query mel_query
      audio_load_fn mel_load_fn audio_length_threshold mel_length_threshold return_utt_id
      = Inr self"
    by (metis not_isl_projr)
  let ?M = "sort (find_files root_dir mel_query)"
  from AudioMelDataset_init_Inr(1) [OF i] assms
  have f: "filter_by_thresholds audio_load_fn mel_load_fn audio_length_threshold
      mel_length_threshold ([], ?M) = Inr (am_audio_files self, am_mel_files self)"
    by simp
  have "zip (am_audio_files self) (am_mel_files self) = []"
    using filter_by_thresholds_pairs [OF f] by simp
  with AudioMelDataset_init_Inr(2,3) [OF i] show False
    by (cases "am_audio_files self"; cases "am_mel_files self") simp_all
qed

lemma AudioMelDataset_init_mismatch:
  assumes "filter_by_thresholds audio_load_fn mel_load_fn audio_length_threshold
             mel_length_threshold
             (sort (find_files root_dir audio_query), sort (find_files root_dir mel_query))
           = Inr (audio_files, mel_files)"
    and "length audio_files \<noteq> length mel_files"
  shows "AudioMelDataset_init find_files root_dir audio_query mel_query audio_load_fn
           mel_load_fn audio_length_threshold mel_length_threshold return_utt_id
         = Inl AssertionError"
  using assms by (simp add: AudioMelDataset_init_def)

lemma AudioMelDataset_init_mismatch_unfiltered:
  assumes "length (find_files root_dir audio_query) \<noteq> length (find_files root_dir mel_query)"
  shows "AudioMelDataset_init find_files root_dir audio_query mel_query audio_load_fn
           mel_load_fn None None return_utt_id = Inl AssertionError"
  using assms
  by (simp add: AudioMelDataset_init_def filter_by_thresholds_def filter_by_audio_def
      filter_by_mel_def Let_def)


subsection \<open>Claim C1: the threshold filter\<close>




subsection \<open>Claim C6: deterministic, sorted iteration order\<close>

text \<open>
  C6. The constructor sorts what the directory listing returns, so another listing of
  the same files, in whatever order, constructs the very same dataset. The file lists of
  a constructed dataset are sorted lexicographically and are subsequences of the sorted
  listings (the whole sorted listings when no threshold is configured), and the
  utterance ids are derived from the audio files in that order. With loaders that are
  functions of the path and succeed on the retained files, a full run of the generator
  over the dataset's id list yields, for i = 0, 1, ..., one tuple per retained file and
  then ends: the i-th tuple is made of the i-th id, the array loaded from the i-th
  audio file and the array loaded from the i-th mel file, in sorted-path order. This
  sequence is a function of the set of files alone, so a second run, also one on a
  dataset constructed from another listing of the unchanged directory, yields it again.
\<close>

theorem iteration_follows_sorted_paths:
  assumes "mset (find_files1 root_dir audio_query) = mset (find_files2 root_dir audio_query)"
    and "mset (find_files1 root_dir mel_query) = mset (find_files2 root_dir mel_query)"
    and "AudioMelDataset_init find_files1 root_dir audio_query mel_query audio_load_fn
           mel_load_fn audio_length_threshold mel_length_threshold return_utt_id = Inr self"
    and "\<forall>f\<in>set (am_audio_files self). \<not> isl (audio_load_fn f)"
    and "\<forall>f\<in>set (am_mel_files self). \<not> isl (mel_load_fn f)"
  shows "AudioMelDataset_init find_files2 root_dir audio_query mel_query audio_load_fn
           mel_load_fn audio_length_threshold mel_length_threshold return_utt_id = Inr self
       \<and> sorted (am_audio_files self) \<and> sorted (am_mel_files self)
       \<and> subseq (am_audio_files self) (sort (find_files2 root_dir audio_query))
       \<and> subseq (am_mel_files self) (sort (find_files2 root_dir mel_query))
       \<and> (audio_length_threshold = None \<and> mel_length_threshold = None \<longrightarrow>
            am_audio_files self = sort (find_files2 root_dir audio_query)
          \<and> am_mel_files self = sort (find_files2 root_dir mel_query))
       \<and> am_utt_ids self = derive_utt_ids ''-wave.npy'' audio_query (am_audio_files self)
       \<and> AudioMelDataset_generator self (am_utt_ids self) =
           (map (\<lambda>i. am_items_of return_utt_id (am_utt_ids self ! i)
                   (projr (audio_load_fn (am_audio_files self ! i)))
                   (projr (mel_load_fn (am_mel_files self ! i))))
              [0..<length (am_audio_files self)],
            None)"
proof -
  let ?A = "sort (find_files1 root_dir audio_query)"
  let ?M = "sort (find_files1 root_dir mel_query)"
  have sa: "sort (find_files2 root_dir audio_query) = ?A"
    and sm: "sort (find_files2 root_dir mel_query) = ?M"
    using sort_listing [OF assms(1)] sort_listing [OF assms(2)] by simp_all
  have again: "AudioMelDataset_init find_files2 root_dir audio_query mel_query audio_load_fn
           mel_load_fn audio_length_threshold mel_length_threshold return_utt_id = Inr self"
    using assms(3) by (simp add: AudioMelDataset_init_def sa sm)
  note i = AudioMelDataset_init_Inr [OF assms(3)]
  have sorted: "sorted (am_audio_files self) \<and> sorted (am_mel_files self)"
    using filter_by_thresholds_sorted [OF i(1)] by simp
  have sub: "subseq (am_audio_files self) ?A \<and> subseq (am_mel_files self) ?M"
    by (rule filter_by_thresholds_subseq [OF i(1)])
  have whole: "am_audio_files self = ?A \<and> am_mel_files self = ?M"
    if "audio_length_threshold = None \<and> mel_length_threshold = None"
    using i(1) that by (simp add: filter_by_thresholds_def filter_by_audio_def filter_by_mel_def)
  let ?n = "length (am_audio_files self)"
  have len: "length (am_utt_ids self) = ?n"
    by (simp add: i(4))
  have "AudioMelDataset_generator self (am_utt_ids self) =
          (map (\<lambda>(j, utt_id). am_items_of return_utt_id utt_id
                    (projr (audio_load_fn (am_audio_files self ! j)))
                    (projr (mel_load_fn (am_mel_files self ! j))))
              (zip [0..<?n] (am_utt_ids self)), None)"
    using assms(4,5) i(3) len
    by (simp add: AudioMelDataset_generator_def AudioMelDataset_generator_from_eq i(5,6,7))
  also have "map (\<lambda>(j, utt_id). am_items_of return_utt_id utt_id
                    (projr (audio_load_fn (am_audio_files self ! j)))
                    (projr (mel_load_fn (am_mel_files self ! j))))
              (zip [0..<?n] (am_utt_ids self))
      = map (\<lambda>i. am_items_of return_utt_id (am_utt_ids self ! i)
                   (projr (audio_load_fn (am_audio_files self ! i)))
                   (projr (mel_load_fn (am_mel_files self ! i)))) [0..<?n]"
    using len by (intro nth_equalityI) simp_all
  finally have gen: "AudioMelDataset_generator self (am_utt_ids self) =
           (map (\<lambda>i. am_items_of return_utt_id (am_utt_ids self ! i)
                   (projr (audio_load_fn (am_audio_files self ! i)))
                   (projr (mel_load_fn (am_mel_files self ! i))))
              [0..<?n], None)" .
  from again sorted sub whole i(4) gen show ?thesis
    by (simp add: sa sm)
qed

theorem iteration_follows_sorted_paths_witness:
  "mset (example_find_files ''d'' ''*-wave.npy'') = mset (example_find_files_again ''d'' ''*-wave.npy'')
 \<and> mset (example_find_files ''d'' ''*-feats.npy'') = mset (example_find_files_again ''d'' ''*-feats.npy'')
 \<and> example_find_files ''d'' ''*-wave.npy'' \<noteq> example_find_files_again ''d'' ''*-wave.npy''
 \<and> AudioMelDataset_init example_find_files ''d'' ''*-wave.npy'' ''*-feats.npy''
       example_load_fn example_load_fn (Some 100) None True = Inr example_dataset
 \<and> list_all (\<lambda>f. \<not> isl (example_load_fn f)) (am_audio_files example_dataset)
 \<and> list_all (\<lambda>f. \<not> isl (example_load_fn f)) (am_mel_files example_dataset)
 \<and> AudioMelDataset_init example_find_files_again ''d'' ''*-wave.npy'' ''*-feats.npy''
       example_load_fn example_load_fn (Some 100) None True = Inr example_dataset
 \<and> am_audio_files example_dataset = [''d/b-wave.npy'', ''d/c-wave.npy'']
 \<and> sorted (am_audio_files example_dataset)
 \<and> AudioMelDataset_generator example_dataset (am_utt_ids example_dataset) =
       ([IdAudioMel ''b'' (wave 150) (feats 3), IdAudioMel ''c'' (wave 200) (feats 4)], None)"
proof -
  have a: "mset (example_find_files ''d'' ''*-wave.npy'')
         = mset (example_find_files_again ''d'' ''*-wave.npy'')"
    and m: "mset (example_find_files ''d'' ''*-feats.npy'')
         = mset (example_find_files_again ''d'' ''*-feats.npy'')"
    by (simp_all add: example_find_files_again_def)
  have d: "example_find_files ''d'' ''*-wave.npy'' \<noteq> example_find_files_again ''d'' ''*-wave.npy''"
    by code_simp
  have la: "list_all (\<lambda>f. \<not> isl (example_load_fn f)) (am_audio_files example_dataset)"
    and lm: "list_all (\<lambda>f. \<not> isl (example_load_fn f)) (am_mel_files example_dataset)"
    by code_simp+
  have la': "\<forall>f\<in>set (am_audio_files example_dataset). \<not> isl (example_load_fn f)"
    and lm': "\<forall>f\<in>set (am_mel_files example_dataset). \<not> isl (example_load_fn f)"
    using la lm unfolding list_all_iff by blast+
  have f: "am_audio_files example_dataset = [''d/b-wave.npy'', ''d/c-wave.npy'']"
    by (simp add: example_dataset_def)
  have u: "[0..<2] = [0, Suc 0]"
    by code_simp
  note run = iteration_follows_sorted_paths [where ?find_files1.0 = example_find_files
      and ?find_files2.0 = example_find_files_again and root_dir = "''d''"
      and audio_query = "''*-wave.npy''" and mel_query = "''*-feats.npy''"
      and audio_load_fn = example_load_fn and mel_load_fn = example_load_fn
      and audio_length_threshold = "Some 100" and mel_length_threshold = None
      and return_utt_id = True and self = example_dataset,
      OF a m example_dataset_constructed la' lm']
  from run have again: "AudioMelDataset_init example_find_files_again ''d'' ''*-wave.npy''
       ''*-feats.npy'' example_load_fn example_load_fn (Some 100) None True = Inr example_dataset"
    by blast
  from run have s: "sorted (am_audio_files example_dataset)"
    by blast
  from run have "AudioMelDataset_generator example_dataset (am_utt_ids example_dataset) =
           (map (\<lambda>i. am_items_of True (am_utt_ids example_dataset ! i)
                   (projr (example_load_fn (am_audio_files example_dataset ! i)))
                   (projr (example_load_fn (am_mel_files example_dataset ! i))))
              [0..<length (am_audio_files example_dataset)],
            None)"
    by blast
  then have g: "AudioMelDataset_generator example_dataset (am_utt_ids example_dataset) =
       ([IdAudioMel ''b'' (wave 150) (feats 3), IdAudioMel ''c'' (wave 200) (feats 4)], None)"
    by (simp add: example_dataset_def u am_items_of_def example_load_fn_def)
  from a m d example_dataset_constructed la lm again f s g show ?thesis
    by (intro conjI)
qed

subsection \<open>Claim C8: one record per file, aligned by index\<close>

text \<open>
  C8. For a directory with N > 0 audio files and N mel files that all load and all pass
  the configured thresholds (no filtering losses), the constructor succeeds,
  \<^verbatim>\<open>get_len_dataset\<close> is N, and the generator run on the dataset's own id list yields
  exactly N tuples and then ends: the i-th tuple holds the audio loaded from the i-th
  audio file in sorted order and the mel loaded from the i-th mel file in sorted order.
\<close>

theorem paired_adapter_yields_every_record:
  assumes "0 < N"
    and "length (find_files root_dir audio_query) = N"
    and "length (find_files root_dir mel_query) = N"
    and "\<forall>f\<in>set (find_files root_dir audio_query).
           \<not> isl (audio_load_fn f) \<and> passes audio_load_fn audio_length_threshold f"
    and "\<forall>f\<in>set (find_files root_dir mel_query).
           \<not> isl (mel_load_fn f) \<and> passes mel_load_fn mel_length_threshold f"
  shows "\<exists>self.
           AudioMelDataset_init find_files root_dir audio_query mel_query audio_load_fn
             mel_load_fn audio_length_threshold mel_length_threshold return_utt_id = Inr self
         \<and> AudioMelDataset_get_len_dataset self = N
         \<and> AudioMelDataset_generator self (am_utt_ids self) =
             (map (\<lambda>i. am_items_of return_utt_id (am_utt_ids self ! i)
                     (projr (audio_load_fn (sort (find_files root_dir audio_query) ! i)))
                     (projr (mel_load_fn (sort (find_files root_dir mel_query) ! i))))
                [0..<N],
              None)"
proof -
  let ?A = "sort (find_files root_dir audio_query)"
  let ?M = "sort (find_files root_dir mel_query)"
  let ?self = "\<lparr> am_utt_ids = derive_utt_ids ''-wave.npy'' audio_query ?A,
                  am_audio_files = ?A, am_mel_files = ?M,
                  am_audio_load_fn = audio_load_fn, am_mel_load_fn = mel_load_fn,
                  am_return_utt_id = return_utt_id \<rparr>"
  have len: "length ?A = N" "length ?M = N"
    using assms(2,3) by simp_all
  have "filter_by_audio audio_load_fn audio_length_threshold (?A, ?M) = Inr (?A, ?M)"
    using assms(4) len by (intro filter_by_audio_all) simp_all
  moreover have "filter_by_mel mel_load_fn mel_length_threshold (?A, ?M) = Inr (?A, ?M)"
    using assms(5) len by (intro filter_by_mel_all) simp_all
  ultimately have f: "filter_by_thresholds audio_load_fn mel_load_fn audio_length_threshold
      mel_length_threshold (?A, ?M) = Inr (?A, ?M)"
    by (simp add: filter_by_thresholds_def)
  have init: "AudioMelDataset_init find_files root_dir audio_query mel_query audio_load_fn
             mel_load_fn audio_length_threshold mel_length_threshold return_utt_id = Inr ?self"
    using assms(1) len by (simp add: AudioMelDataset_init_def f)
  have size: "AudioMelDataset_get_len_dataset ?self = N"
    using len by (simp add: AudioMelDataset_get_len_dataset_def)
  have "AudioMelDataset_generator ?self (am_utt_ids ?self) =
          (map (\<lambda>(j, utt_id). am_items_of return_utt_id utt_id
                    (projr (audio_load_fn (?A ! j))) (projr (mel_load_fn (?M ! j))))
              (zip [0..<N] (am_utt_ids ?self)), None)"
    using assms(4,5) len
    by (simp add: AudioMelDataset_generator_def AudioMelDataset_generator_from_eq)
  also have "map (\<lambda>(j, utt_id). am_items_of return_utt_id utt_id
                    (projr (audio_load_fn (?A ! j))) (projr (mel_load_fn (?M ! j))))
              (zip [0..<N] (am_utt_ids ?self))
      = map (\<lambda>i. am_items_of return_utt_id (am_utt_ids ?self ! i)
                     (projr (audio_load_fn (?A ! i))) (projr (mel_load_fn (?M ! i)))) [0..<N]"
    using len by (intro nth_equalityI) simp_all
  finally show ?thesis
    using init size by blast
qed

theorem paired_adapter_yields_every_record_witness:
  "0 < (3::nat)
   \<and> length (example_find_files ''d'' ''*-wave.npy'') = 3
   \<and> length (example_find_files ''d'' ''*-feats.npy'') = 3
   \<and> list_all (\<lambda>f. \<not> isl (example_load_fn f) \<and> passes example_load_fn (Some 10) f)
        (example_find_files ''d'' ''*-wave.npy'')
   \<and> list_all (\<lambda>f. \<not> isl (example_load_fn f) \<and> passes example_load_fn (Some 0) f)
        (example_find_files ''d'' ''*-feats.npy'')
   \<and> (\<exists>self.
         AudioMelDataset_init example_find_files ''d'' ''*-wave.npy'' ''*-feats.npy''
           example_load_fn example_load_fn (Some 10) (Some 0) False = Inr self
       \<and> AudioMelDataset_get_len_dataset self = 3
       \<and> AudioMelDataset_generator self (am_utt_ids self) =
           ([AudioMel (wave 50) (feats 1), AudioMel (wave 150) (feats 3),
             AudioMel (wave 200) (feats 4)], None))"
proof -
  have n: "0 < (3::nat)" by simp
  have la: "length (example_find_files ''d'' ''*-wave.npy'') = 3"
    and lm: "length (example_find_files ''d'' ''*-feats.npy'') = 3"
    by (simp_all add: example_find_files_def)
  have pa: "list_all (\<lambda>f. \<not> isl (example_load_fn f) \<and> passes example_load_fn (Some 10) f)
        (example_find_files ''d'' ''*-wave.npy'')"
    and pm: "list_all (\<lambda>f. \<not> isl (example_load_fn f) \<and> passes example_load_fn (Some 0) f)
        (example_find_files ''d'' ''*-feats.npy'')"
    by code_simp+
  have ev: "map (\<lambda>i. am_items_of False (us ! i)
                     (projr (example_load_fn (sort (example_find_files ''d'' ''*-wave.npy'') ! i)))
                     (projr (example_load_fn (sort (example_find_files ''d'' ''*-feats.npy'') ! i))))
                [0..<3]
          = [AudioMel (wave 50) (feats 1), AudioMel (wave 150) (feats 3),
             AudioMel (wave 200) (feats 4)]" for us
  proof -
    have "sort (example_find_files ''d'' ''*-wave.npy'')
            = [''d/a-wave.npy'', ''d/b-wave.npy'', ''d/c-wave.npy'']"
      and "sort (example_find_files ''d'' ''*-feats.npy'')
            = [''d/a-feats.npy'', ''d/b-feats.npy'', ''d/c-feats.npy'']"
      by code_simp+
    moreover have "[0..<3] = [0, 1, Suc 1]"
      by code_simp
    ultimately show ?thesis
      by (simp add: am_items_of_def example_load_fn_def)
  qed
  from paired_adapter_yields_every_record [where N = 3 and find_files = example_find_files
      and root_dir = "''d''" and audio_query = "''*-wave.npy''" and mel_query = "''*-feats.npy''"
      and audio_load_fn = example_load_fn and mel_load_fn = example_load_fn
      and audio_length_threshold = "Some 10" and mel_length_threshold = "Some 0"
      and return_utt_id = False]
  show ?thesis
    using n la lm pa pm by (simp add: ev list_all_iff)
qed


subsection \<open>Claim C9: the generator selects files by position\<close>

text \<open>
  C9. The generators of \<^verbatim>\<open>AudioMelDataset\<close> and \<^verbatim>\<open>AudioDataset\<close> pair the supplied ids
  with the positions 0, 1, 2, ... and load the file at that position; the value of an id
  is only copied into the tuple (when \<^verbatim>\<open>return_utt_id\<close> is set) and never selects a
  file. With loaders that succeed on the dataset's files and the audio and mel lists of
  equal length (as the constructor leaves them), an id list no longer than the dataset
  yields the tuples of the first files and ends normally; a longer id list yields one
  tuple per file and then raises \<^verbatim>\<open>IndexError\<close> at the first position past the files.
\<close>

theorem generator_selects_by_position:
  assumes "\<forall>f\<in>set (am_audio_files self). \<not> isl (am_audio_load_fn self f)"
    and "\<forall>f\<in>set (am_mel_files self). \<not> isl (am_mel_load_fn self f)"
    and "length (am_mel_files self) = length (am_audio_files self)"
    and "\<forall>f\<in>set (a_audio_files self'). \<not> isl (a_audio_load_fn self' f)"
  shows "AudioMelDataset_generator self utt_ids =
           (map (\<lambda>(i, utt_id). am_items_of (am_return_utt_id self) utt_id
                    (projr (am_audio_load_fn self (am_audio_files self ! i)))
                    (projr (am_mel_load_fn self (am_mel_files self ! i))))
              (zip [0..<length (am_audio_files self)] utt_ids),
            if length utt_ids \<le> length (am_audio_files self) then None else Some IndexError)
       \<and> AudioDataset_generator self' utt_ids =
           (map (\<lambda>(i, utt_id). single_items_of (a_return_utt_id self') utt_id
                    (projr (a_audio_load_fn self' (a_audio_files self' ! i))))
              (zip [0..<length (a_audio_files self')] utt_ids),
            if length utt_ids \<le> length (a_audio_files self') then None else Some IndexError)"
  using AudioMelDataset_generator_from_eq [OF assms(1,2,3), of 0 utt_ids]
    single_generator_from_eq [OF assms(4), of "a_return_utt_id self'" 0 utt_ids]
  by (simp add: AudioMelDataset_generator_def AudioDataset_generator_def)

theorem generator_selects_by_position_witness:
  "list_all (\<lambda>f. \<not> isl (am_audio_load_fn example_dataset f)) (am_audio_files example_dataset)
   \<and> list_all (\<lambda>f. \<not> isl (am_mel_load_fn example_dataset f)) (am_mel_files example_dataset)
   \<and> length (am_mel_files example_dataset) = length (am_audio_files example_dataset)
   \<and> list_all (\<lambda>f. \<not> isl (a_audio_load_fn example_audio_dataset f))
        (a_audio_files example_audio_dataset)
   \<and> AudioMelDataset_generator example_dataset [''x'', ''y'', ''z''] =
        ([IdAudioMel ''x'' (wave 150) (feats 3), IdAudioMel ''y'' (wave 200) (feats 4)],
         Some IndexError)
   \<and> AudioDataset_generator example_audio_dataset [''x'', ''y'', ''z''] =
        ([Array (wave 150), Array (wave 200)], Some IndexError)"
proof -
  have h1: "list_all (\<lambda>f. \<not> isl (am_audio_load_fn example_dataset f)) (am_audio_files example_dataset)"
    and h2: "list_all (\<lambda>f. \<not> isl (am_mel_load_fn example_dataset f)) (am_mel_files example_dataset)"
    and h3: "length (am_mel_files example_dataset) = length (am_audio_files example_dataset)"
    and h4: "list_all (\<lambda>f. \<not> isl (a_audio_load_fn example_audio_dataset f))
        (a_audio_files example_audio_dataset)"
    by (simp_all add: example_dataset_def example_audio_dataset_def example_load_fn_def)
  have "[0..<2] = [0, 1]"
    by code_simp
  with generator_selects_by_position [OF h1 [unfolded list_all_iff] h2 [unfolded list_all_iff]
      h3 h4 [unfolded list_all_iff], of "[''x'', ''y'', ''z'']"]
  show ?thesis
    using h1 h2 h3 h4
    by (simp add: example_dataset_def example_audio_dataset_def example_load_fn_def
        am_items_of_def single_items_of_def)
qed

subsection \<open>Claim C7: utterance ids\<close>

text \<open>
  C7, as amended. The rule is chosen by the query string: when the query contains
  \<^verbatim>\<open>.npy\<close>, the id of each retained file is its basename with every occurrence of the
  token removed (\<^verbatim>\<open>-wave.npy\<close> and the audio query in \<^verbatim>\<open>AudioMelDataset\<close> and
  \<^verbatim>\<open>AudioDataset\<close>, \<^verbatim>\<open>-feats.npy\<close> and the mel query in \<^verbatim>\<open>MelDataset\<close>); otherwise it is
  the basename without its extension. Removing every occurrence is the same as stripping
  the suffix whenever the token occurs nowhere in the name before its end, so
  \<^verbatim>\<open>utt1-wave.npy\<close> yields \<^verbatim>\<open>utt1\<close>; and \<^verbatim>\<open>utt2.h5\<close> yields \<^verbatim>\<open>utt2\<close>.

  The claim as stated, with the suffix stripped once, fails for a name that contains the
  token a second time: the counterexample below is the file
  \<^verbatim>\<open>utt1-wave.npy-wave.npy\<close>, whose id is \<^verbatim>\<open>utt1\<close> and not \<^verbatim>\<open>utt1-wave.npy\<close>.
\<close>

theorem utt_ids_remove_every_token:
  "(AudioMelDataset_init find_files root_dir audio_query mel_query audio_load_fn mel_load_fn
      audio_length_threshold mel_length_threshold return_utt_id = Inr self
    \<longrightarrow> am_utt_ids self =
          (if contains ''.npy'' audio_query
           then map (\<lambda>f. replace ''-wave.npy'' [] (basename f)) (am_audio_files self)
           else map (\<lambda>f. fst (splitext (basename f))) (am_audio_files self)))
 \<and> (AudioDataset_init find_files root_dir audio_query audio_load_fn
      audio_length_threshold return_utt_id = Inr self_a
    \<longrightarrow> a_utt_ids self_a =
          (if contains ''.npy'' audio_query
           then map (\<lambda>f. replace ''-wave.npy'' [] (basename f)) (a_audio_files self_a)
           else map (\<lambda>f. fst (splitext (basename f))) (a_audio_files self_a)))
 \<and> (MelDataset_init find_files root_dir mel_query mel_load_fn
      mel_length_threshold return_utt_id = Inr self_m
    \<longrightarrow> m_utt_ids self_m =
          (if contains ''.npy'' mel_query
           then map (\<lambda>f. replace ''-feats.npy'' [] (basename f)) (m_mel_files self_m)
           else map (\<lambda>f. fst (splitext (basename f))) (m_mel_files self_m)))
 \<and> (token \<noteq> [] \<and> \<not> contains token (butlast name)
    \<longrightarrow> replace token [] name = strip_suffix token name)
 \<and> (CHR ''/'' \<notin> set stem \<and> CHR ''/'' \<notin> set ext \<and> CHR ''.'' \<notin> set ext
      \<and> (\<exists>c\<in>set stem. c \<noteq> CHR ''.'')
    \<longrightarrow> fst (splitext (stem @ CHR ''.'' # ext)) = stem)
 \<and> replace ''-wave.npy'' [] (basename ''utt1-wave.npy'') = ''utt1''
 \<and> fst (splitext (basename ''utt2.h5'')) = ''utt2''"
proof -
  have "replace ''-wave.npy'' [] (basename ''utt1-wave.npy'') = ''utt1''"
    and "fst (splitext (basename ''utt2.h5'')) = ''utt2''"
    by code_simp+
  then show ?thesis
    using AudioMelDataset_init_Inr(4) [of find_files root_dir audio_query mel_query
        audio_load_fn mel_load_fn audio_length_threshold mel_length_threshold return_utt_id self]
      AudioDataset_init_Inr(3) [of find_files root_dir audio_query audio_load_fn
        audio_length_threshold return_utt_id self_a]
      MelDataset_init_Inr(3) [of find_files root_dir mel_query mel_load_fn
        mel_length_threshold return_utt_id self_m]
      replace_is_strip_suffix [of token name]
      splitext_plain [of stem ext]
    by (simp add: derive_utt_ids_def)
qed

theorem utt_ids_remove_every_token_witness:
  "AudioMelDataset_init example_find_files ''d'' ''*-wave.npy'' ''*-feats.npy''
     example_load_fn example_load_fn (Some 100) None True = Inr example_dataset
 \<and> am_utt_ids example_dataset =
       map (\<lambda>f. replace ''-wave.npy'' [] (basename f)) (am_audio_files example_dataset)
 \<and> AudioDataset_init h5_find_files ''d'' ''*.h5'' example_load_fn None False = Inr h5_audio_dataset
 \<and> a_utt_ids h5_audio_dataset =
       map (\<lambda>f. fst (splitext (basename f))) (a_audio_files h5_audio_dataset)
 \<and> MelDataset_init example_find_files ''d'' ''*-feats.npy'' example_load_fn (Some 0) False
     = Inr example_mel_dataset
 \<and> m_utt_ids example_mel_dataset =
       map (\<lambda>f. replace ''-feats.npy'' [] (basename f)) (m_mel_files example_mel_dataset)
 \<and> ''-wave.npy'' \<noteq> [] \<and> \<not> contains ''-wave.npy'' (butlast ''utt1-wave.npy'')
 \<and> replace ''-wave.npy'' [] ''utt1-wave.npy'' = strip_suffix ''-wave.npy'' ''utt1-wave.npy''
 \<and> fst (splitext (''utt2'' @ CHR ''.'' # ''h5'')) = ''utt2''"
proof -
  have c1: "contains ''.npy'' ''*-wave.npy''" and c2: "\<not> contains ''.npy'' ''*.h5''"
    and c3: "contains ''.npy'' ''*-feats.npy''"
    and c4: "\<not> contains ''-wave.npy'' (butlast ''utt1-wave.npy'')"
    by code_simp+
  have c5: "CHR ''/'' \<notin> set ''utt2'' \<and> CHR ''/'' \<notin> set ''h5'' \<and> CHR ''.'' \<notin> set ''h5''
      \<and> (\<exists>c\<in>set ''utt2''. c \<noteq> CHR ''.'')"
    by simp
  from utt_ids_remove_every_token [where find_files = example_find_files and root_dir = "''d''"
      and audio_query = "''*-wave.npy''" and mel_query = "''*-feats.npy''"
      and audio_load_fn = example_load_fn and mel_load_fn = example_load_fn
      and audio_length_threshold = "Some 100" and mel_length_threshold = None
      and return_utt_id = True and self = example_dataset
      and token = "''-wave.npy''" and name = "''utt1-wave.npy''"
      and stem = "''utt2''" and ext = "''h5''"]
    utt_ids_remove_every_token [where find_files = h5_find_files and root_dir = "''d''"
      and audio_query = "''*.h5''" and audio_load_fn = example_load_fn
      and audio_length_threshold = None and return_utt_id = False
      and self_a = h5_audio_dataset]
    utt_ids_remove_every_token [where find_files = example_find_files and root_dir = "''d''"
      and mel_query = "''*-feats.npy''" and mel_load_fn = example_load_fn
      and mel_length_threshold = "Some 0" and return_utt_id = False
      and self_m = example_mel_dataset]
  show ?thesis
    using example_dataset_constructed h5_audio_dataset_constructed
      example_mel_dataset_constructed c1 c2 c3 c4 c5
    by simp
qed

theorem suffix_stripping_counterexample:
  "map_sum id am_utt_ids
     (AudioMelDataset_init renamed_find_files ''d'' ''*.npy'' ''*.h5''
        example_load_fn example_load_fn None None False)
     = Inr [''utt1'']
 \<and> map_sum id (map (strip_suffix ''-wave.npy'' \<circ> basename) \<circ> am_audio_files)
     (AudioMelDataset_init renamed_find_files ''d'' ''*.npy'' ''*.h5''
        example_load_fn example_load_fn None None False)
     = Inr [''utt1-wave.npy'']
 \<and> map_sum id am_utt_ids
     (AudioMelDataset_init renamed_find_files ''d'' ''*.npy'' ''*.h5''
        example_load_fn example_load_fn None None False)
   \<noteq> map_sum id (map (strip_suffix ''-wave.npy'' \<circ> basename) \<circ> am_audio_files)
     (AudioMelDataset_init renamed_find_files ''d'' ''*.npy'' ''*.h5''
        example_load_fn example_load_fn None None False)"
  by code_simp

subsection \<open>Claim C3: construction-time validation\<close>

text \<open>
  C3. The two assertions do what the claim says wherever they are reached: every adapter
  whose listing is empty fails with \<^verbatim>\<open>AssertionError\<close> (\<open>AudioDataset_init_empty\<close>,
  \<open>MelDataset_init_empty\<close>, \<open>AudioMelDataset_init_empty\<close>), the paired adapter fails
  with it when the two lists differ in length after filtering
  (\<open>AudioMelDataset_init_mismatch\<close>), and a paired adapter without audio files never
  returns a dataset (\<open>AudioMelDataset_init_no_audio_fails\<close>). But the paired
  constructor indexes \<^verbatim>\<open>audio_files\<close> in the mel threshold block (line 66) before it
  asserts that the list is not empty (line 70). Over a directory where nothing matches the
  audio query and one feature file passes the mel threshold, construction therefore stops
  with \<^verbatim>\<open>IndexError\<close> and not with the assertion's error; with an audio threshold
  configured as well, the same directory is rejected by the assertion.
\<close>

theorem empty_audio_set_raises_IndexError:
  "AudioMelDataset_init mel_only_find_files ''d'' ''*-wave.npy'' ''*-feats.npy''
     example_load_fn example_load_fn None (Some 0) False = Inl IndexError
 \<and> AudioMelDataset_init mel_only_find_files ''d'' ''*-wave.npy'' ''*-feats.npy''
     example_load_fn example_load_fn (Some 0) (Some 0) False = Inl AssertionError"
proof -
  have "filter_by_thresholds example_load_fn example_load_fn None (Some 0)
          (sort (mel_only_find_files ''d'' ''*-wave.npy''),
           sort (mel_only_find_files ''d'' ''*-feats.npy'')) = Inl IndexError"
    and "filter_by_thresholds example_load_fn example_load_fn (Some 0) (Some 0)
          (sort (mel_only_find_files ''d'' ''*-wave.npy''),
           sort (mel_only_find_files ''d'' ''*-feats.npy'')) = Inr ([], [])"
    by code_simp+
  then show ?thesis
    by (simp add: AudioMelDataset_init_def)
qed

section \<open>Properties of the trainer\<close>

subsection \<open>Saving, loading and the loop body\<close>

lemma Variable_assign_word:
  "Variable_assign x = Inr w \<Longrightarrow> w = word_of_int (int_of x)"
  by (cases x) (auto split: if_splits)

lemma sint_fits_int32:
  "fits_int32 v \<Longrightarrow> sint (word_of_int v :: 32 word) = v"
  by (simp add: fits_int32_def sint_sbintrunc' signed_take_bit_int_eq_self)

lemma sint_wraps:
  "\<not> fits_int32 v \<Longrightarrow> sint (word_of_int v :: 32 word) \<noteq> v"
proof
  assume n: "\<not> fits_int32 v" and e: "sint (word_of_int v :: 32 word) = v"
  have "- (2 ^ 31) \<le> sint (word_of_int v :: 32 word)" "sint (word_of_int v :: 32 word) < 2 ^ 31"
    using sint_ge [of "word_of_int v :: 32 word"] sint_lt [of "word_of_int v :: 32 word"]
    by simp_all
  with e n show False by (simp add: fits_int32_def)
qed

lemma fold_delete:
  "fold (\<lambda>p d. d(p := None)) ps d q = (if q \<in> set ps then None else d q)"
  by (induction ps arbitrary: d) auto

lemma CheckpointManager_save_keeps_new:
  assumes "CheckpointManager_save manager c n h d st = (manager', d', st')"
  shows "d' (cm_directory manager, n) =
           Some \<lparr> snap_steps = ck_steps c, snap_epochs = ck_epochs c,
                  snap_generator = h (ck_generator c),
                  snap_discriminator = h (ck_discriminator c),
                  snap_gen_optimizer = h (ck_gen_optimizer c),
                  snap_dis_optimizer = h (ck_dis_optimizer c) \<rparr>"
proof -
  let ?path = "(cm_directory manager, n)"
  let ?old = "filter (\<lambda>p. p \<noteq> ?path) (cm_kept manager)"
  have "?path \<notin> set (take k (?old @ [?path]))" if "k \<le> length ?old" for k
    using that by (auto dest: in_set_takeD)
  then have "?path \<notin> set (take (length (?old @ [?path]) - k) (?old @ [?path]))" if "k \<noteq> 0" for k
    using that by (cases k) auto
  then show ?thesis
    using assms
    by (auto simp: CheckpointManager_save_def Let_def fold_delete split: option.splits if_splits)
qed

lemma save_checkpoint_changes:
  "snd (save_checkpoint self) =
     self \<lparr> ckpt := ckpt (snd (save_checkpoint self)),
            ckp_manager := ckp_manager (snd (save_checkpoint self)),
            disk := disk (snd (save_checkpoint self)),
            checkpoint_state := checkpoint_state (snd (save_checkpoint self)) \<rparr>"
  by (auto simp: save_checkpoint_def Let_def split: option.splits sum.splits prod.splits)

lemma save_checkpoint_frame:
  "steps (snd (save_checkpoint self)) = steps self"
  "epochs (snd (save_checkpoint self)) = epochs self"
  "finish_train (snd (save_checkpoint self)) = finish_train self"
  "config (snd (save_checkpoint self)) = config self"
  "tqdm (snd (save_checkpoint self)) = tqdm self"
  "generator (snd (save_checkpoint self)) = generator self"
  "discriminator (snd (save_checkpoint self)) = discriminator self"
  "gen_optimizer (snd (save_checkpoint self)) = gen_optimizer self"
  "dis_optimizer (snd (save_checkpoint self)) = dis_optimizer self"
  "heap (snd (save_checkpoint self)) = heap self"
  "train_data_loader (snd (save_checkpoint self)) = train_data_loader self"
  by (subst save_checkpoint_changes, simp)+

lemma save_checkpoint_None:
  assumes "save_checkpoint self = (None, saved)" "ckp_manager self = Some manager"
  shows "\<exists>c c' steps32 epochs32.
           ckpt self = Some c \<and> Variable_assign (steps self) = Inr steps32
         \<and> Variable_assign (epochs self) = Inr epochs32
         \<and> c' = c \<lparr> ck_steps := steps32, ck_epochs := epochs32 \<rparr>
         \<and> ckpt saved = Some c'
         \<and> disk saved (cm_directory manager, int_of (steps self)) =
             Some \<lparr> snap_steps = steps32, snap_epochs = epochs32,
                    snap_generator = heap self (ck_generator c),
                    snap_discriminator = heap self (ck_discriminator c),
                    snap_gen_optimizer = heap self (ck_gen_optimizer c),
                    snap_dis_optimizer = heap self (ck_dis_optimizer c) \<rparr>"
  using assms
  by (auto simp: save_checkpoint_def Let_def
      split: option.splits sum.splits prod.splits
      dest!: CheckpointManager_save_keeps_new)

lemma save_checkpoint_succeeds:
  assumes "ckpt self = Some c" "ckp_manager self = Some manager"
    and "Variable_assign (steps self) = Inr steps32"
    and "Variable_assign (epochs self) = Inr epochs32"
  shows "fst (save_checkpoint self) = None"
  using assms by (simp add: save_checkpoint_def Let_def split: prod.splits)

lemma and_then_simps [simp]:
  "and_then (t, Some e, s) f = (t, Some e, s)"
  "and_then (t, None, s) f = (case f s of (t', r, s') \<Rightarrow> (t @ t', r, s'))"
  by (simp_all add: and_then_def)

lemma call_well_behaved:
  assumes "well_behaved method"
  shows "call ev method self = ([ev], None, snd (method self))"
proof -
  from assms have "fst (method self) = None"
    by (simp add: well_behaved_def)
  then show ?thesis
    by (cases "method self") (simp add: call_def)
qed

lemma well_behaved_snd:
  assumes "well_behaved method"
  shows "steps (snd (method self)) = steps self" "config (snd (method self)) = config self"
    "tqdm (snd (method self)) = tqdm self"
  using assms by (simp_all add: well_behaved_def)

lemma check_eval_interval_result:
  assumes "config self ''eval_interval_steps'' = Some (CInt e)" "e \<noteq> 0"
    and "steps self = PyInt n"
  shows "check_eval_interval hooks self =
           (if n mod e = 0 then ([CheckEvalInterval, EvalEpoch], eval_epoch hooks self)
            else ([CheckEvalInterval], None, self))"
  using assms
  by (simp add: check_eval_interval_def call_def split: prod.splits)

lemma check_eval_interval_well_behaved:
  assumes "well_behaved (eval_epoch hooks)"
    and "config self ''eval_interval_steps'' = Some (CInt e)" "e \<noteq> 0"
    and "steps self = PyInt n"
  shows "check_eval_interval hooks self =
           (CheckEvalInterval # (if n mod e = 0 then [EvalEpoch] else []), None,
            if n mod e = 0 then snd (eval_epoch hooks self) else self)"
  using assms
  by (simp add: check_eval_interval_def call_well_behaved)

lemma trained_append [simp]: "trained (t @ u) = trained t @ trained u"
  by (induction t rule: trained.induct) simp_all

lemma finish_checked_untrained:
  "trained t = [] \<Longrightarrow> finish_checked (t @ u) = finish_checked u"
  by (induction t rule: trained.induct) simp_all

lemma and_then_cases:
  obtains (raised) t e s where "first = (t, Some e, s)" "and_then first second = (t, Some e, s)"
  | (went_on) t s t' r s' where "first = (t, None, s)" "second s = (t', r, s')"
      "and_then first second = (t @ t', r, s')"
proof (cases first)
  case (fields t r s)
  show ?thesis
  proof (cases r)
    case None
    obtain t' r' s' where "second s = (t', r', s')" by (cases "second s")
    with fields None show ?thesis by (intro went_on [of t s t' r' s']) simp_all
  next
    case (Some e)
    with fields show ?thesis by (intro raised [of t e s]) simp_all
  qed
qed

lemma side_stepI:
  "(\<And>self. trained (fst (f self)) = []) \<Longrightarrow>
   (\<And>self. epochs (snd (snd (f self))) = epochs self) \<Longrightarrow> side_step f"
  by (simp add: side_step_def)

lemma side_step_and_then:
  assumes "side_step f" "side_step g"
  shows "side_step (\<lambda>self. and_then (f self) g)"
proof (rule side_stepI)
  fix self
  show "trained (fst (and_then (f self) g)) = []"
  proof (cases "f self" g rule: and_then_cases)
    case (raised t e s)
    with assms(1) show ?thesis by (metis fst_conv side_step_def)
  next
    case (went_on t s t' r s')
    with assms show ?thesis by (metis append_Nil fst_conv side_step_def trained_append)
  qed
  show "epochs (snd (snd (and_then (f self) g))) = epochs self"
  proof (cases "f self" g rule: and_then_cases)
    case (raised t e s)
    with assms(1) show ?thesis by (metis snd_conv side_step_def)
  next
    case (went_on t s t' r s')
    with assms show ?thesis by (metis snd_conv side_step_def)
  qed
qed

lemma side_step_call:
  assumes "keeps_epochs method" "trained [ev] = []"
  shows "side_step (call ev method)"
  using assms by (intro side_stepI) (simp_all add: call_def keeps_epochs_def split: prod.splits)

lemma keeps_epochs_save_checkpoint: "keeps_epochs save_checkpoint"
  by (simp add: keeps_epochs_def save_checkpoint_frame)

lemma side_step_const: "trained t = [] \<Longrightarrow> side_step (\<lambda>self. (t, r, self))"
  by (simp add: side_step_def)

lemma side_step_check_save_interval: "side_step check_save_interval"
proof (rule side_stepI)
  fix self
  have c: "side_step (\<lambda>s.
              and_then ([CheckSaveInterval], None, s)
                (call (SaveCheckpoint (int_of (steps self))) save_checkpoint))"
    by (intro side_step_and_then side_step_call keeps_epochs_save_checkpoint side_step_const)
      simp_all
  show "trained (fst (check_save_interval self)) = []"
    using c [unfolded side_step_def, THEN spec, of self]
    by (simp add: check_save_interval_def split: option.splits sum.splits)
  show "epochs (snd (snd (check_save_interval self))) = epochs self"
    using c [unfolded side_step_def, THEN spec, of self]
    by (simp add: check_save_interval_def split: option.splits sum.splits)
qed

lemma side_step_check_eval_interval:
  assumes "keeps_epochs (eval_epoch hooks)"
  shows "side_step (check_eval_interval hooks)"
proof (rule side_stepI)
  fix self
  have c: "side_step (\<lambda>s.
              and_then ([CheckEvalInterval], None, s) (call EvalEpoch (eval_epoch hooks)))"
    by (intro side_step_and_then side_step_call assms side_step_const) simp_all
  show "trained (fst (check_eval_interval hooks self)) = []"
    using c [unfolded side_step_def, THEN spec, of self]
    by (simp add: check_eval_interval_def split: option.splits sum.splits)
  show "epochs (snd (snd (check_eval_interval hooks self))) = epochs self"
    using c [unfolded side_step_def, THEN spec, of self]
    by (simp add: check_eval_interval_def split: option.splits sum.splits)
qed

lemma side_step_check_interval:
  assumes "hooks_keep_epochs hooks"
  shows "side_step (check_interval hooks)"
proof (rule side_stepI)
  fix self
  from assms have "keeps_epochs (check_log_interval hooks)" "keeps_epochs (eval_epoch hooks)"
    by (simp_all add: hooks_keep_epochs_def)
  then have c: "side_step (\<lambda>s. and_then (call CheckLogInterval (check_log_interval hooks) s)
       (\<lambda>s. and_then (check_eval_interval hooks s) check_save_interval))"
    by (intro side_step_and_then side_step_call side_step_check_eval_interval
        side_step_check_save_interval) simp_all
  show "trained (fst (check_interval hooks self)) = []"
    using c [unfolded side_step_def, THEN spec, of self]
    by (simp add: check_interval_def split: option.splits)
  show "epochs (snd (snd (check_interval hooks self))) = epochs self"
    using c [unfolded side_step_def, THEN spec, of self]
    by (simp add: check_interval_def split: option.splits)
qed

lemma side_step_update_counts: "side_step update_counts"
  by (rule side_stepI) (simp_all add: update_counts_def Let_def split: option.splits)

lemma train_iteration_shape:
  assumes "hooks_keep_epochs hooks"
    and "train_iteration hooks batch self = (t, r, self')"
  shows "epochs self' = epochs self"
    and "trained t = [batch]"
    and "r = None \<Longrightarrow> \<exists>rest. t = TrainStep batch # CheckTrainFinish # rest \<and> trained rest = []"
proof -
  from assms(1) have kt: "keeps_epochs (train_step hooks batch)"
    and kf: "keeps_epochs (check_train_finish hooks)"
    by (simp_all add: hooks_keep_epochs_def)
  obtain r1 s1 where ts: "train_step hooks batch self = (r1, s1)"
    by (cases "train_step hooks batch self")
  with kt have e1: "epochs s1 = epochs self"
    by (metis keeps_epochs_def snd_conv)
  have c1: "call (TrainStep batch) (train_step hooks batch) self = ([TrainStep batch], r1, s1)"
    by (simp add: call_def ts)
  define tail where "tail = (\<lambda>s. and_then (update_counts s) (\<lambda>s.
       and_then (call CheckTrainFinish (check_train_finish hooks) s) (check_interval hooks)))"
  have it: "train_iteration hooks batch self = and_then ([TrainStep batch], r1, s1) tail"
    by (simp add: train_iteration_def c1 tail_def)
  show "epochs self' = epochs self" and "trained t = [batch]"
    and "r = None \<Longrightarrow> \<exists>rest. t = TrainStep batch # CheckTrainFinish # rest \<and> trained rest = []"
  proof -
    obtain t2 r2 s2 where u: "update_counts s1 = (t2, r2, s2)"
      by (cases "update_counts s1")
    have u2: "t2 = []" "epochs s2 = epochs s1"
      using side_step_update_counts [unfolded side_step_def, THEN spec, of s1] u
      by (simp_all add: update_counts_def Let_def split: option.splits)
    obtain r3 s3 where cf: "check_train_finish hooks s2 = (r3, s3)"
      by (cases "check_train_finish hooks s2")
    with kf have e3: "epochs s3 = epochs s2"
      by (metis keeps_epochs_def snd_conv)
    obtain t4 r4 s4 where ci: "check_interval hooks s3 = (t4, r4, s4)"
      by (cases "check_interval hooks s3")
    have c4: "trained t4 = []" "epochs s4 = epochs s3"
      using side_step_check_interval [OF assms(1), unfolded side_step_def, THEN spec, of s3] ci
      by simp_all
    have u': "update_counts s1 = ([], r2, s2)"
      using u u2(1) by simp
    have "train_iteration hooks batch self =
        (case r1 of Some e \<Rightarrow> ([TrainStep batch], Some e, s1)
         | None \<Rightarrow> (case r2 of Some e \<Rightarrow> ([TrainStep batch], Some e, s2)
            | None \<Rightarrow> (case r3 of Some e \<Rightarrow> ([TrainStep batch, CheckTrainFinish], Some e, s3)
               | None \<Rightarrow> (TrainStep batch # CheckTrainFinish # t4, r4, s4))))"
      by (cases r1; cases r2; cases r3) (simp_all add: it tail_def call_def u' cf ci)
    with assms(2) have res: "(t, r, self') =
        (case r1 of Some e \<Rightarrow> ([TrainStep batch], Some e, s1)
         | None \<Rightarrow> (case r2 of Some e \<Rightarrow> ([TrainStep batch], Some e, s2)
            | None \<Rightarrow> (case r3 of Some e \<Rightarrow> ([TrainStep batch, CheckTrainFinish], Some e, s3)
               | None \<Rightarrow> (TrainStep batch # CheckTrainFinish # t4, r4, s4))))"
      by simp
    from res e1 u2 e3 c4 show "epochs self' = epochs self"
      by (auto split: option.splits)
    from res c4 show "trained t = [batch]"
      by (auto split: option.splits)
    from res c4 show "r = None \<Longrightarrow> \<exists>rest. t = TrainStep batch # CheckTrainFinish # rest \<and> trained rest = []"
      by (auto split: option.splits)
  qed
qed

lemma train_loop_shape:
  assumes "hooks_keep_epochs hooks"
    and "train_loop hooks batches self = (t, x, self')"
  shows "epochs self' = epochs self
       \<and> prefix (trained t) batches
       \<and> (x = Exhausted \<longrightarrow> trained t = batches \<and> (batches \<noteq> [] \<longrightarrow> \<not> finish_train self'))
       \<and> (x = Returned \<longrightarrow> finish_train self' \<and> trained t \<noteq> [])
       \<and> ((\<forall>e. x \<noteq> Raised e) \<longrightarrow> finish_checked t)"
  using assms(2)
proof (induction batches arbitrary: self t x self')
  case Nil
  then show ?case by simp
next
  case (Cons batch rest)
  obtain t1 r1 s1 where it: "train_iteration hooks batch self = (t1, r1, s1)"
    by (cases "train_iteration hooks batch self")
  note sh = train_iteration_shape [OF assms(1) it]
  show ?case
  proof (cases r1)
    case (Some e)
    with Cons.prems it have "t = t1" "x = Raised e" "self' = s1" by simp_all
    with sh show ?thesis by simp
  next
    case None
    with sh(3) obtain rest1 where t1: "t1 = TrainStep batch # CheckTrainFinish # rest1"
      and r1: "trained rest1 = []"
      by blast
    show ?thesis
    proof (cases "finish_train s1")
      case True
      with Cons.prems it None have "t = t1" "x = Returned" "self' = s1" by simp_all
      with sh(1,2) True t1 r1 finish_checked_untrained [of rest1 "[]"] show ?thesis by simp
    next
      case False
      obtain t2 x2 s2 where lp: "train_loop hooks rest s1 = (t2, x2, s2)"
        by (cases "train_loop hooks rest s1")
      with Cons.prems it None False have res: "t = t1 @ t2" "x = x2" "self' = s2" by simp_all
      note ih = Cons.IH [OF lp]
      have "rest = [] \<Longrightarrow> s2 = s1" using lp by simp
      with ih False have nf: "x2 = Exhausted \<longrightarrow> \<not> finish_train s2"
        by (cases rest) auto
      have fc: "finish_checked (t1 @ t2) = finish_checked t2"
        using finish_checked_untrained [OF r1, of t2] by (simp add: t1)
      from ih sh(1,2) nf fc show ?thesis
        by (simp add: res)
    qed
  qed
qed

lemma example_hooks_well_behaved: "well_behaved_hooks example_hooks"
  by (simp add: well_behaved_hooks_def well_behaved_def example_hooks_def
      split: option.splits cfg_value.splits)

lemma example_hooks_keep_epochs: "hooks_keep_epochs example_hooks"
  by (simp add: hooks_keep_epochs_def keeps_epochs_def example_hooks_def
      split: option.splits cfg_value.splits)

subsection \<open>The trace and the state of an epoch\<close>

lemma check_save_interval_result:
  assumes "config self ''save_interval_steps'' = Some (CInt v)" "v \<noteq> 0"
    and "steps self = PyInt n"
  shows "check_save_interval self =
           (if n mod v = 0 then ([CheckSaveInterval, SaveCheckpoint n], save_checkpoint self)
            else ([CheckSaveInterval], None, self))"
  using assms
  by (simp add: check_save_interval_def call_def split: prod.splits)

lemma trained_step_events [simp]: "trained (step_events rank e v batch n) = [batch]"
  by (simp add: step_events_def)

lemma counted_frame:
  assumes "well_behaved_hooks hooks" "steps self = PyInt n"
  shows "steps (counted hooks batch self) = PyInt (n + 1)"
    and "config (counted hooks batch self) = config self"
    and "tqdm (counted hooks batch self) = map_option (\<lambda>k. k + 1) (tqdm self)"
proof -
  from assms(1) have wt: "well_behaved (train_step hooks batch)"
    and wf: "well_behaved (check_train_finish hooks)"
    by (simp_all add: well_behaved_hooks_def)
  define s1 where "s1 = snd (train_step hooks batch self)"
  have s1: "steps s1 = PyInt n" "config s1 = config self" "tqdm s1 = tqdm self"
    using well_behaved_snd [OF wt, of self] assms(2) by (simp_all add: s1_def)
  define s2 where "s2 = s1 \<lparr> steps := add_one (steps s1), tqdm := map_option (\<lambda>k. k + 1) (tqdm s1) \<rparr>"
  have s2: "steps s2 = PyInt (n + 1)" "config s2 = config self"
    "tqdm s2 = map_option (\<lambda>k. k + 1) (tqdm self)"
    using s1 by (simp_all add: s2_def)
  have c: "counted hooks batch self = snd (check_train_finish hooks s2)"
    by (simp add: counted_def s1_def s2_def Let_def)
  show "steps (counted hooks batch self) = PyInt (n + 1)"
    and "config (counted hooks batch self) = config self"
    and "tqdm (counted hooks batch self) = map_option (\<lambda>k. k + 1) (tqdm self)"
    using well_behaved_snd [OF wf, of s2] s2 by (simp_all add: c)
qed

lemma evaluated_frame:
  assumes "well_behaved_hooks hooks" "steps self = PyInt n"
  shows "steps (evaluated hooks e batch self) = PyInt (n + 1)"
    and "config (evaluated hooks e batch self) = config self"
    and "tqdm (evaluated hooks e batch self) = map_option (\<lambda>k. k + 1) (tqdm self)"
proof -
  from assms(1) have we: "well_behaved (eval_epoch hooks)"
    and wl: "well_behaved (check_log_interval hooks)"
    by (simp_all add: well_behaved_hooks_def)
  define s4 where "s4 = snd (check_log_interval hooks (counted hooks batch self))"
  have s4: "steps s4 = PyInt (n + 1)" "config s4 = config self"
    "tqdm s4 = map_option (\<lambda>k. k + 1) (tqdm self)"
    using well_behaved_snd [OF wl, of "counted hooks batch self"] counted_frame [OF assms]
    by (simp_all add: s4_def)
  have c: "evaluated hooks e batch self =
             (if (n + 1) mod e = 0 then snd (eval_epoch hooks s4) else s4)"
    using s4(1) by (simp add: evaluated_def s4_def Let_def)
  show "steps (evaluated hooks e batch self) = PyInt (n + 1)"
    and "config (evaluated hooks e batch self) = config self"
    and "tqdm (evaluated hooks e batch self) = map_option (\<lambda>k. k + 1) (tqdm self)"
    using well_behaved_snd [OF we, of s4] s4 by (simp_all add: c)
qed

lemma train_iteration_result:
  assumes "well_behaved_hooks hooks"
    and "tqdm self \<noteq> None"
    and "config self ''rank'' = Some rank"
    and "rank = CInt 0 \<longrightarrow>
           config self ''eval_interval_steps'' = Some (CInt e) \<and> e \<noteq> 0
         \<and> config self ''save_interval_steps'' = Some (CInt v) \<and> v \<noteq> 0"
    and "steps self = PyInt n"
  shows "train_iteration hooks batch self =
           (step_events rank e v batch (n + 1),
            if rank = CInt 0
            then if (n + 1) mod v = 0 then save_checkpoint (evaluated hooks e batch self)
                 else (None, evaluated hooks e batch self)
            else (None, counted hooks batch self))"
proof -
  from assms(1) have wt: "well_behaved (train_step hooks batch)"
    and we: "well_behaved (eval_epoch hooks)"
    and wl: "well_behaved (check_log_interval hooks)"
    and wf: "well_behaved (check_train_finish hooks)"
    by (simp_all add: well_behaved_hooks_def)
  define s1 where "s1 = snd (train_step hooks batch self)"
  have s1: "steps s1 = PyInt n" "config s1 = config self" "tqdm s1 = tqdm self"
    using well_behaved_snd [OF wt, of self] assms(5) by (simp_all add: s1_def)
  from assms(2) s1(3) obtain k where k: "tqdm s1 = Some k"
    by auto
  define s2 where "s2 = s1 \<lparr> steps := add_one (steps s1), tqdm := map_option (\<lambda>k. k + 1) (tqdm s1) \<rparr>"
  define s3 where "s3 = counted hooks batch self"
  have s3_eq: "s3 = snd (check_train_finish hooks s2)"
    by (simp add: s3_def counted_def s1_def s2_def Let_def)
  have s3: "steps s3 = PyInt (n + 1)" "config s3 = config self"
    using counted_frame [OF assms(1,5), of batch] by (simp_all add: s3_def)
  have c1: "call (TrainStep batch) (train_step hooks batch) self = ([TrainStep batch], None, s1)"
    by (simp add: call_well_behaved [OF wt] s1_def)
  have c2: "update_counts s1 = ([], None, s2)"
    using k by (simp add: update_counts_def s2_def)
  have c3: "call CheckTrainFinish (check_train_finish hooks) s2 = ([CheckTrainFinish], None, s3)"
    by (simp add: call_well_behaved [OF wf] s3_eq)
  have it: "train_iteration hooks batch self =
          and_then ([TrainStep batch, CheckTrainFinish], None, s3) (check_interval hooks)"
    by (simp only: train_iteration_def c1 c2 c3 and_then_simps) (simp split: prod.splits)
  show ?thesis
  proof (cases "rank = CInt 0")
    case False
    then have "check_interval hooks s3 = ([], None, s3)"
      using assms(3) s3 by (simp add: check_interval_def)
    with False show ?thesis
      by (simp add: it step_events_def s3_def)
  next
    case True
    with assms(4) have a: "config self ''eval_interval_steps'' = Some (CInt e)" "e \<noteq> 0"
      "config self ''save_interval_steps'' = Some (CInt v)" "v \<noteq> 0"
      by simp_all
    define s4 where "s4 = snd (check_log_interval hooks s3)"
    have s4: "steps s4 = PyInt (n + 1)" "config s4 = config self"
      using well_behaved_snd [OF wl, of s3] s3 by (simp_all add: s4_def)
    define s5 where "s5 = evaluated hooks e batch self"
    have s5_eq: "s5 = (if (n + 1) mod e = 0 then snd (eval_epoch hooks s4) else s4)"
      using s4(1) by (simp add: s5_def evaluated_def s4_def s3_def Let_def)
    have s5: "steps s5 = PyInt (n + 1)" "config s5 = config self"
      using evaluated_frame [OF assms(1,5), of e batch] by (simp_all add: s5_def)
    define out where "out = (if (n + 1) mod v = 0 then save_checkpoint s5 else (None, s5))"
    have c4: "call CheckLogInterval (check_log_interval hooks) s3 = ([CheckLogInterval], None, s4)"
      by (simp add: call_well_behaved [OF wl] s4_def)
    have c5: "check_eval_interval hooks s4 =
           (CheckEvalInterval # (if (n + 1) mod e = 0 then [EvalEpoch] else []),
            None, s5)"
      using a s4 check_eval_interval_well_behaved [OF we, of s4 e "n + 1"]
      by (simp add: s5_eq)
    have c6: "check_save_interval s5 =
         (CheckSaveInterval # (if (n + 1) mod v = 0 then [SaveCheckpoint (n + 1)] else []),
          fst out, snd out)"
      using a s5 check_save_interval_result [of s5 v "n + 1"]
      by (simp add: out_def)
    have r: "config s3 ''rank'' = Some (CInt 0)"
      using True assms(3) s3 by simp
    have "check_interval hooks s3 =
            ([CheckLogInterval] @ (CheckEvalInterval #
               (if (n + 1) mod e = 0 then [EvalEpoch] else []))
             @ (CheckSaveInterval # (if (n + 1) mod v = 0 then [SaveCheckpoint (n + 1)] else [])),
             fst out, snd out)"
      by (simp only: check_interval_def r option.case if_True c4 c5 c6 and_then_simps refl
          prod.case append_assoc)
    then have "train_iteration hooks batch self = (step_events rank e v batch (n + 1), out)"
      using True by (simp add: it step_events_def)
    with True show ?thesis
      by (simp add: out_def s5_def)
  qed
qed

lemma train_iteration_frame:
  assumes "well_behaved_hooks hooks"
    and "tqdm self \<noteq> None"
    and "config self ''rank'' = Some rank"
    and "rank = CInt 0 \<longrightarrow>
           config self ''eval_interval_steps'' = Some (CInt e) \<and> e \<noteq> 0
         \<and> config self ''save_interval_steps'' = Some (CInt v) \<and> v \<noteq> 0"
    and "steps self = PyInt n"
  obtains r self' where
    "train_iteration hooks batch self = (step_events rank e v batch (n + 1), r, self')"
    "steps self' = PyInt (n + 1)" "config self' = config self" "tqdm self' \<noteq> None"
proof -
  let ?out = "if rank = CInt 0
            then if (n + 1) mod v = 0 then save_checkpoint (evaluated hooks e batch self)
                 else (None, evaluated hooks e batch self)
            else (None, counted hooks batch self)"
  have it: "train_iteration hooks batch self =
              (step_events rank e v batch (n + 1), fst ?out, snd ?out)"
    using train_iteration_result [OF assms, of batch] by simp
  have "steps (snd ?out) = PyInt (n + 1)" "config (snd ?out) = config self"
    "tqdm (snd ?out) \<noteq> None"
    using counted_frame [OF assms(1,5), of batch] evaluated_frame [OF assms(1,5), of e batch]
      assms(2)
    by (auto simp: save_checkpoint_frame)
  with it show ?thesis
    by (rule that)
qed

lemma train_loop_trace:
  assumes "well_behaved_hooks hooks"
    and "tqdm self \<noteq> None"
    and "config self ''rank'' = Some rank"
    and "rank = CInt 0 \<longrightarrow>
           config self ''eval_interval_steps'' = Some (CInt e) \<and> e \<noteq> 0
         \<and> config self ''save_interval_steps'' = Some (CInt v) \<and> v \<noteq> 0"
    and "steps self = PyInt n"
  shows "fst (train_loop hooks batches self) =
           expected_trace rank e v n (trained (fst (train_loop hooks batches self)))"
  using assms(2,3,4,5)
proof (induction batches arbitrary: self n)
  case Nil
  show ?case by simp
next
  case (Cons batch rest)
  from train_iteration_frame [OF assms(1) Cons.prems(1,2,3,4), of batch]
  obtain r self' where it: "train_iteration hooks batch self =
        (step_events rank e v batch (n + 1), r, self')"
    and s': "steps self' = PyInt (n + 1)" "config self' = config self" "tqdm self' \<noteq> None"
    by metis
  show ?case
  proof (cases "r = None \<and> \<not> finish_train self'")
    case False
    then have "fst (train_loop hooks (batch # rest) self) =
                 step_events rank e v batch (n + 1)"
      by (auto simp: it split: option.splits)
    then show ?thesis by simp
  next
    case True
    have ih: "fst (train_loop hooks rest self') =
           expected_trace rank e v (n + 1) (trained (fst (train_loop hooks rest self')))"
      using Cons.IH [of self' "n + 1"] s' Cons.prems(2,3) by simp
    from True have "fst (train_loop hooks (batch # rest) self) =
              step_events rank e v batch (n + 1) @ fst (train_loop hooks rest self')"
      by (simp add: it split: prod.splits)
    with ih show ?thesis by simp
  qed
qed

lemma fst_train_epoch:
  "train_data_loader self = Some batches \<Longrightarrow>
   fst (train_epoch hooks self) = fst (train_loop hooks batches self)"
  by (simp add: train_epoch_def Let_def split: prod.splits exit.splits)

subsection \<open>Claim C10: what a save changes\<close>

text \<open>
  C10. Whatever the state of the trainer and whether or not the save succeeds,
  \<^verbatim>\<open>save_checkpoint\<close> changes nothing but the checkpoint object, the manager's list
  of retained paths and the checkpoint files with their state file: \<^verbatim>\<open>steps\<close>,
  \<^verbatim>\<open>epochs\<close>, \<^verbatim>\<open>finish_train\<close>, the references to the generator, the
  discriminator and the two optimizers, and the variables of those objects are as
  before. When the save succeeds, the checkpoint object's two variables hold the low 32
  bits of the trainer's counters, which are the counters themselves whenever these fit
  a signed 32-bit variable.
\<close>

theorem save_checkpoint_only_writes_checkpoint:
  "snd (save_checkpoint self) =
     self \<lparr> ckpt := ckpt (snd (save_checkpoint self)),
            ckp_manager := ckp_manager (snd (save_checkpoint self)),
            disk := disk (snd (save_checkpoint self)),
            checkpoint_state := checkpoint_state (snd (save_checkpoint self)) \<rparr>
 \<and> steps (snd (save_checkpoint self)) = steps self
 \<and> epochs (snd (save_checkpoint self)) = epochs self
 \<and> finish_train (snd (save_checkpoint self)) = finish_train self
 \<and> generator (snd (save_checkpoint self)) = generator self
 \<and> discriminator (snd (save_checkpoint self)) = discriminator self
 \<and> gen_optimizer (snd (save_checkpoint self)) = gen_optimizer self
 \<and> dis_optimizer (snd (save_checkpoint self)) = dis_optimizer self
 \<and> heap (snd (save_checkpoint self)) = heap self
 \<and> (fst (save_checkpoint self) = None \<longrightarrow>
       map_option (\<lambda>c. (ck_steps c, ck_epochs c)) (ckpt (snd (save_checkpoint self)))
         = Some (word_of_int (int_of (steps self)), word_of_int (int_of (epochs self))))
 \<and> (fst (save_checkpoint self) = None
       \<and> fits_int32 (int_of (steps self)) \<and> fits_int32 (int_of (epochs self)) \<longrightarrow>
       map_option (\<lambda>c. (sint (ck_steps c), sint (ck_epochs c))) (ckpt (snd (save_checkpoint self)))
         = Some (int_of (steps self), int_of (epochs self)))"
proof -
  have w: "map_option (\<lambda>c. (ck_steps c, ck_epochs c)) (ckpt (snd (save_checkpoint self)))
         = Some (word_of_int (int_of (steps self)), word_of_int (int_of (epochs self)))"
    if "fst (save_checkpoint self) = None"
  proof -
    from that have n: "save_checkpoint self = (None, snd (save_checkpoint self))"
      by (metis prod.collapse)
    then obtain manager where "ckp_manager self = Some manager"
      by (auto simp: save_checkpoint_def Let_def split: option.splits sum.splits prod.splits)
    from save_checkpoint_None [OF n this] show ?thesis
      by (auto dest: Variable_assign_word)
  qed
  have "map_option (\<lambda>c. (sint (ck_steps c), sint (ck_epochs c))) (ckpt (snd (save_checkpoint self)))
         = Some (int_of (steps self), int_of (epochs self))"
    if "fst (save_checkpoint self) = None"
      and "fits_int32 (int_of (steps self))" "fits_int32 (int_of (epochs self))"
    using w [OF that(1)] that(2,3) by (auto simp: sint_fits_int32)
  with w show ?thesis
    using save_checkpoint_changes [of self] by (simp add: save_checkpoint_frame)
qed

theorem save_checkpoint_only_writes_checkpoint_witness:
  "fst (save_checkpoint trainer_at_step_100) = None
 \<and> fits_int32 (int_of (steps trainer_at_step_100))
 \<and> fits_int32 (int_of (epochs trainer_at_step_100))
 \<and> steps (snd (save_checkpoint trainer_at_step_100)) = PyInt 100
 \<and> epochs (snd (save_checkpoint trainer_at_step_100)) = PyInt 7
 \<and> map_option (\<lambda>c. (sint (ck_steps c), sint (ck_epochs c)))
      (ckpt (snd (save_checkpoint trainer_at_step_100))) = Some (100, 7)
 \<and> fst (save_checkpoint trainer_past_int32) = None
 \<and> steps (snd (save_checkpoint trainer_past_int32)) = PyInt 2147483648
 \<and> map_option (\<lambda>c. (sint (ck_steps c), sint (ck_epochs c)))
      (ckpt (snd (save_checkpoint trainer_past_int32))) = Some (- 2147483648, 7)"
proof -
  have n: "fst (save_checkpoint trainer_at_step_100) = None"
    "fst (save_checkpoint trainer_past_int32) = None"
    by code_simp+
  have s: "steps trainer_at_step_100 = PyInt 100" "epochs trainer_at_step_100 = PyInt 7"
    "steps trainer_past_int32 = PyInt 2147483648" "epochs trainer_past_int32 = PyInt 7"
    by code_simp+
  have f: "fits_int32 (int_of (steps trainer_at_step_100))"
    "fits_int32 (int_of (epochs trainer_at_step_100))"
    by (simp_all add: s fits_int32_def)
  have wrap: "sint (word_of_int 2147483648 :: 32 word) = - 2147483648"
    "sint (word_of_int 7 :: 32 word) = 7"
    by code_simp+
  note at_100 = save_checkpoint_only_writes_checkpoint [of trainer_at_step_100]
  note past = save_checkpoint_only_writes_checkpoint [of trainer_past_int32]
  from at_100 n(1) f s(1,2)
  have a: "steps (snd (save_checkpoint trainer_at_step_100)) = PyInt 100"
    "epochs (snd (save_checkpoint trainer_at_step_100)) = PyInt 7"
    "map_option (\<lambda>c. (sint (ck_steps c), sint (ck_epochs c)))
      (ckpt (snd (save_checkpoint trainer_at_step_100))) = Some (100, 7)"
    by simp_all
  from past n(2) s(3,4)
  have p: "steps (snd (save_checkpoint trainer_past_int32)) = PyInt 2147483648"
    "map_option (\<lambda>c. (ck_steps c, ck_epochs c)) (ckpt (snd (save_checkpoint trainer_past_int32)))
       = Some (word_of_int 2147483648, word_of_int 7)"
    by simp_all
  from p(2) have q: "map_option (\<lambda>c. (sint (ck_steps c), sint (ck_epochs c)))
      (ckpt (snd (save_checkpoint trainer_past_int32))) = Some (- 2147483648, 7)"
    using wrap by (cases "ckpt (snd (save_checkpoint trainer_past_int32))") auto
  from n f a p(1) q show ?thesis
    by (intro conjI)
qed

subsection \<open>Claim C4: checkpoint round trip\<close>

text \<open>
  C4, as amended. Take a trainer that has its checkpoint object and manager, with counters S and E
  that \<^verbatim>\<open>assign\<close> accepts. Then \<^verbatim>\<open>save_checkpoint\<close> succeeds, the checkpoint it
  writes is the one numbered S in the manager's directory, and \<^verbatim>\<open>load_checkpoint\<close>
  on that path succeeds, for the saving trainer itself and for any other trainer that
  has created its checkpoint object and finds the file as it was written. After the
  load, \<^verbatim>\<open>steps\<close> and \<^verbatim>\<open>epochs\<close> are the \<^verbatim>\<open>int32\<close> scalars made of the low 32
  bits of S and of E. They equal S and E exactly when S and E fit a signed 32-bit
  variable; a counter outside that range comes back as a different number.
\<close>

theorem checkpoint_round_trip_keeps_low_32_bits:
  assumes "ckpt self = Some c0"
    and "ckp_manager self = Some manager"
    and "\<not> isl (Variable_assign (steps self))"
    and "\<not> isl (Variable_assign (epochs self))"
  shows "\<exists>saved. save_checkpoint self = (None, saved)
          \<and> (\<forall>other c.
                ckpt other = Some c
              \<and> disk other (cm_directory manager, int_of (steps self))
                  = disk saved (cm_directory manager, int_of (steps self))
              \<longrightarrow> (\<exists>loaded.
                     load_checkpoint (cm_directory manager, int_of (steps self)) other
                       = (None, loaded)
                   \<and> steps loaded = NpInt32 (word_of_int (int_of (steps self)))
                   \<and> epochs loaded = NpInt32 (word_of_int (int_of (epochs self)))
                   \<and> (fits_int32 (int_of (steps self))
                        \<longrightarrow> int_of (steps loaded) = int_of (steps self))
                   \<and> (fits_int32 (int_of (epochs self))
                        \<longrightarrow> int_of (epochs loaded) = int_of (epochs self))
                   \<and> (\<not> fits_int32 (int_of (steps self))
                        \<longrightarrow> int_of (steps loaded) \<noteq> int_of (steps self))
                   \<and> (\<not> fits_int32 (int_of (epochs self))
                        \<longrightarrow> int_of (epochs loaded) \<noteq> int_of (epochs self))))"
proof -
  from assms(3,4) obtain steps32 epochs32
    where s: "Variable_assign (steps self) = Inr steps32"
      and e: "Variable_assign (epochs self) = Inr epochs32"
    by (metis not_isl_projr)
  define saved where "saved = snd (save_checkpoint self)"
  have ok: "save_checkpoint self = (None, saved)"
    using save_checkpoint_succeeds [OF assms(1,2) s e]
    by (metis prod.collapse saved_def)
  let ?path = "(cm_directory manager, int_of (steps self))"
  from save_checkpoint_None [OF ok assms(2)] s e assms(1)
  have d: "disk saved ?path =
                Some \<lparr> snap_steps = steps32, snap_epochs = epochs32,
                       snap_generator = heap self (ck_generator c0),
                       snap_discriminator = heap self (ck_discriminator c0),
                       snap_gen_optimizer = heap self (ck_gen_optimizer c0),
                       snap_dis_optimizer = heap self (ck_dis_optimizer c0) \<rparr>"
    by auto
  have ws: "steps32 = word_of_int (int_of (steps self))"
    and we: "epochs32 = word_of_int (int_of (epochs self))"
    using s e by (simp_all add: Variable_assign_word)
  have "\<exists>loaded. load_checkpoint ?path other = (None, loaded)
                   \<and> steps loaded = NpInt32 (word_of_int (int_of (steps self)))
                   \<and> epochs loaded = NpInt32 (word_of_int (int_of (epochs self)))
                   \<and> (fits_int32 (int_of (steps self))
                        \<longrightarrow> int_of (steps loaded) = int_of (steps self))
                   \<and> (fits_int32 (int_of (epochs self))
                        \<longrightarrow> int_of (epochs loaded) = int_of (epochs self))
                   \<and> (\<not> fits_int32 (int_of (steps self))
                        \<longrightarrow> int_of (steps loaded) \<noteq> int_of (steps self))
                   \<and> (\<not> fits_int32 (int_of (epochs self))
                        \<longrightarrow> int_of (epochs loaded) \<noteq> int_of (epochs self))"
    if "ckpt other = Some c \<and> disk other ?path = disk saved ?path" for other c
    using that d ws we
    by (simp add: load_checkpoint_def Checkpoint_restore_def sint_fits_int32 sint_wraps)
  with ok show ?thesis
    by blast
qed

theorem checkpoint_round_trip_keeps_low_32_bits_witness:
  "ckpt trainer_at_step_100 =
      Some \<lparr> ck_steps = 1, ck_epochs = 1, ck_generator = 0, ck_discriminator = 1,
             ck_gen_optimizer = 2, ck_dis_optimizer = 3 \<rparr>
 \<and> ckp_manager trainer_at_step_100 =
      Some \<lparr> cm_directory = ''out/checkpoints/'', cm_max_to_keep = Some 10, cm_kept = [] \<rparr>
 \<and> \<not> isl (Variable_assign (steps trainer_at_step_100))
 \<and> \<not> isl (Variable_assign (epochs trainer_at_step_100))
 \<and> int_of (steps trainer_at_step_100) = 100 \<and> int_of (epochs trainer_at_step_100) = 7
 \<and> fits_int32 100 \<and> fits_int32 7
 \<and> fst (save_checkpoint trainer_at_step_100) = None
 \<and> ckpt restarted_trainer =
      Some \<lparr> ck_steps = 1, ck_epochs = 1, ck_generator = 0, ck_discriminator = 1,
             ck_gen_optimizer = 2, ck_dis_optimizer = 3 \<rparr>
 \<and> ckp_manager restarted_trainer =
      Some \<lparr> cm_directory = ''out/checkpoints/'', cm_max_to_keep = Some 10,
             cm_kept = [(''out/checkpoints/'', 100)] \<rparr>
 \<and> disk restarted_trainer (''out/checkpoints/'', 100)
     = disk (snd (save_checkpoint trainer_at_step_100)) (''out/checkpoints/'', 100)
 \<and> steps restarted_trainer = PyInt 0 \<and> epochs restarted_trainer = PyInt 0
 \<and> (\<exists>loaded. load_checkpoint (''out/checkpoints/'', 100) restarted_trainer = (None, loaded)
        \<and> steps loaded = NpInt32 100 \<and> epochs loaded = NpInt32 7
        \<and> int_of (steps loaded) = 100 \<and> int_of (epochs loaded) = 7)"
proof -
  have c0: "ckpt trainer_at_step_100 =
      Some \<lparr> ck_steps = 1, ck_epochs = 1, ck_generator = 0, ck_discriminator = 1,
             ck_gen_optimizer = 2, ck_dis_optimizer = 3 \<rparr>"
    and m: "ckp_manager trainer_at_step_100 =
      Some \<lparr> cm_directory = ''out/checkpoints/'', cm_max_to_keep = Some 10, cm_kept = [] \<rparr>"
    and c: "ckpt restarted_trainer =
      Some \<lparr> ck_steps = 1, ck_epochs = 1, ck_generator = 0, ck_discriminator = 1,
             ck_gen_optimizer = 2, ck_dis_optimizer = 3 \<rparr>"
    and m': "ckp_manager restarted_trainer =
      Some \<lparr> cm_directory = ''out/checkpoints/'', cm_max_to_keep = Some 10,
             cm_kept = [(''out/checkpoints/'', 100)] \<rparr>"
    by code_simp+
  have a: "\<not> isl (Variable_assign (steps trainer_at_step_100))"
    "\<not> isl (Variable_assign (epochs trainer_at_step_100))"
    by code_simp+
  have s: "int_of (steps trainer_at_step_100) = 100" "int_of (epochs trainer_at_step_100) = 7"
    "steps restarted_trainer = PyInt 0" "epochs restarted_trainer = PyInt 0"
    by code_simp+
  have f: "fits_int32 100" "fits_int32 7"
    by (simp_all add: fits_int32_def)
  have d: "disk restarted_trainer (''out/checkpoints/'', 100)
     = disk (snd (save_checkpoint trainer_at_step_100)) (''out/checkpoints/'', 100)"
    by (simp add: restarted_trainer_def create_checkpoint_manager_def example_trainer_def
        example_config_def)
  from checkpoint_round_trip_keeps_low_32_bits [OF c0 m a]
  obtain saved where ok: "save_checkpoint trainer_at_step_100 = (None, saved)"
    and all: "\<forall>(other :: (nat, int) GanBasedTrainer) c.
                ckpt other = Some c
              \<and> disk other (''out/checkpoints/'', 100) = disk saved (''out/checkpoints/'', 100)
              \<longrightarrow> (\<exists>loaded.
                     load_checkpoint (''out/checkpoints/'', 100) other = (None, loaded)
                   \<and> steps loaded = NpInt32 100
                   \<and> epochs loaded = NpInt32 7
                   \<and> (fits_int32 100 \<longrightarrow> int_of (steps loaded) = 100)
                   \<and> (fits_int32 7 \<longrightarrow> int_of (epochs loaded) = 7)
                   \<and> (\<not> fits_int32 100 \<longrightarrow> int_of (steps loaded) \<noteq> 100)
                   \<and> (\<not> fits_int32 7 \<longrightarrow> int_of (epochs loaded) \<noteq> 7))"
    by (auto simp: s)
  from ok have n: "fst (save_checkpoint trainer_at_step_100) = None"
    and sv: "saved = snd (save_checkpoint trainer_at_step_100)"
    by simp_all
  from all [rule_format, of restarted_trainer] c d sv f
  have l: "\<exists>loaded. load_checkpoint (''out/checkpoints/'', 100) restarted_trainer = (None, loaded)
        \<and> steps loaded = NpInt32 100 \<and> epochs loaded = NpInt32 7
        \<and> int_of (steps loaded) = 100 \<and> int_of (epochs loaded) = 7"
    by blast
  from c0 m a s f n c m' d l show ?thesis
    by (intro conjI)
qed

text \<open>
  The claim as stated, that the load restores \<^verbatim>\<open>steps\<close> to S, fails for a counter
  that does not fit 32 bits. At a step count of \<open>2^31\<close> the save succeeds and writes the
  checkpoint numbered \<open>2^31\<close>; loading it succeeds and leaves a step count of \<open>- 2^31\<close>.
\<close>

theorem wrapped_step_count_after_load:
  "fst (save_checkpoint trainer_past_int32) = None
 \<and> int_of (steps trainer_past_int32) = 2147483648
 \<and> fst (load_checkpoint (''out/checkpoints/'', 2147483648)
           (snd (save_checkpoint trainer_past_int32))) = None
 \<and> int_of (steps (snd (load_checkpoint (''out/checkpoints/'', 2147483648)
                         (snd (save_checkpoint trainer_past_int32))))) = - 2147483648
 \<and> int_of (epochs (snd (load_checkpoint (''out/checkpoints/'', 2147483648)
                          (snd (save_checkpoint trainer_past_int32))))) = 7"
  by code_simp

subsection \<open>Claim C2: the interval checks\<close>



subsection \<open>Claim C5: early termination and the epoch counter\<close>

text \<open>
  C5. With hooks that do not assign \<^verbatim>\<open>epochs\<close>, every run of \<^verbatim>\<open>_train_epoch\<close>
  trains on a prefix of the batch stream. Unless an exception ends the run, every call
  of \<^verbatim>\<open>_train_step\<close> is followed at once by \<^verbatim>\<open>_check_train_finish\<close>. As soon as an
  iteration ends with \<^verbatim>\<open>finish_train\<close> set, the loop returns with the remaining
  batches untouched and \<^verbatim>\<open>epochs\<close> unchanged. \<^verbatim>\<open>epochs\<close> changes only by being
  incremented once, and only when the whole stream has been trained on and the
  \<^verbatim>\<open>return\<close> was not taken. (Over an empty stream the increment is followed by
  \<^verbatim>\<open>UnboundLocalError\<close>.)
\<close>

theorem epoch_counts_only_full_passes:
  assumes "hooks_keep_epochs hooks"
    and "train_data_loader self = Some batches"
    and "train_epoch hooks self = (t, x, self')"
  shows "prefix (trained t) batches
       \<and> (x = Returned \<longrightarrow> finish_train self' \<and> epochs self' = epochs self \<and> trained t \<noteq> [])
       \<and> (x = Exhausted \<longrightarrow>
            epochs self' = add_one (epochs self) \<and> trained t = batches \<and> \<not> finish_train self')
       \<and> (\<forall>e. x = Raised e \<longrightarrow>
            epochs self' = epochs self
            \<or> (e = UnboundLocalError \<and> batches = [] \<and> epochs self' = add_one (epochs self)))
       \<and> (epochs self' \<noteq> epochs self \<longrightarrow>
            epochs self' = add_one (epochs self) \<and> trained t = batches \<and> x \<noteq> Returned)
       \<and> ((\<forall>e. x \<noteq> Raised e) \<longrightarrow> finish_checked t)
       \<and> (\<forall>batch rest self0 t1 self1.
            train_iteration hooks batch self0 = (t1, None, self1) \<and> finish_train self1
            \<longrightarrow> train_loop hooks (batch # rest) self0 = (t1, Returned, self1))"
proof -
  obtain t0 x0 s0 where lp: "train_loop hooks batches self = (t0, x0, s0)"
    by (cases "train_loop hooks batches self")
  note sh = train_loop_shape [OF assms(1) lp]
  have last: "\<forall>batch rest self0 t1 self1.
            train_iteration hooks batch self0 = (t1, None, self1) \<and> finish_train self1
            \<longrightarrow> train_loop hooks (batch # rest) self0 = (t1, Returned, self1)"
    by simp
  show ?thesis
  proof (cases x0)
    case Exhausted
    show ?thesis
    proof (cases "batches = []")
      case True
      with assms(2,3) lp Exhausted have "t = t0" "x = Raised UnboundLocalError"
        "self' = s0 \<lparr> epochs := add_one (epochs s0) \<rparr>"
        by (simp_all add: train_epoch_def)
      with sh True last show ?thesis by simp
    next
      case False
      with assms(2,3) lp Exhausted have "t = t0" "x = Exhausted"
        "self' = s0 \<lparr> epochs := add_one (epochs s0), train_steps_per_epoch := Some (length batches) \<rparr>"
        by (simp_all add: train_epoch_def)
      with sh False Exhausted last show ?thesis by simp
    qed
  next
    case Returned
    with assms(2,3) lp have "t = t0" "x = Returned" "self' = s0"
      by (simp_all add: train_epoch_def)
    with sh Returned last show ?thesis by simp
  next
    case (Raised e)
    with assms(2,3) lp have "t = t0" "x = Raised e" "self' = s0"
      by (simp_all add: train_epoch_def)
    with sh last show ?thesis by simp
  qed
qed

theorem epoch_counts_only_full_passes_witness:
  "hooks_keep_epochs example_hooks
 \<and> train_data_loader prepared_trainer = Some [10, 11, 12, 13, 14, 15]
 \<and> fst (snd (train_epoch example_hooks prepared_trainer)) = Returned
 \<and> trained (fst (train_epoch example_hooks prepared_trainer)) = [10, 11, 12, 13]
 \<and> finish_train (snd (snd (train_epoch example_hooks prepared_trainer)))
 \<and> epochs (snd (snd (train_epoch example_hooks prepared_trainer))) = epochs prepared_trainer
 \<and> train_data_loader short_epoch_trainer = Some [7, 8]
 \<and> fst (snd (train_epoch example_hooks short_epoch_trainer)) = Exhausted
 \<and> trained (fst (train_epoch example_hooks short_epoch_trainer)) = [7, 8]
 \<and> epochs (snd (snd (train_epoch example_hooks short_epoch_trainer)))
     = add_one (epochs short_epoch_trainer)
 \<and> add_one (epochs short_epoch_trainer) = PyInt 1"
proof -
  have l: "train_data_loader prepared_trainer = Some [10, 11, 12, 13, 14, 15]"
    "train_data_loader short_epoch_trainer = Some [7, 8]"
    by code_simp+
  have x: "fst (snd (train_epoch example_hooks prepared_trainer)) = Returned"
    "fst (snd (train_epoch example_hooks short_epoch_trainer)) = Exhausted"
    by code_simp+
  have b: "trained (fst (train_epoch example_hooks prepared_trainer)) = [10, 11, 12, 13]"
    by code_simp
  have p: "train_epoch example_hooks self =
      (fst (train_epoch example_hooks self), fst (snd (train_epoch example_hooks self)),
       snd (snd (train_epoch example_hooks self)))" for self
    by simp
  note long = epoch_counts_only_full_passes [OF example_hooks_keep_epochs l(1) p]
  note short = epoch_counts_only_full_passes [OF example_hooks_keep_epochs l(2) p]
  from long [THEN conjunct2, THEN conjunct1] x(1)
  have r: "finish_train (snd (snd (train_epoch example_hooks prepared_trainer)))"
    "epochs (snd (snd (train_epoch example_hooks prepared_trainer))) = epochs prepared_trainer"
    by blast+
  from short [THEN conjunct2, THEN conjunct2, THEN conjunct1] x(2)
  have e: "trained (fst (train_epoch example_hooks short_epoch_trainer)) = [7, 8]"
    "epochs (snd (snd (train_epoch example_hooks short_epoch_trainer)))
     = add_one (epochs short_epoch_trainer)"
    by blast+
  have one: "add_one (epochs short_epoch_trainer) = PyInt 1"
    by code_simp
  from example_hooks_keep_epochs l x b r e one show ?thesis
    by (intro conjI)
qed

end
